theory Spec2Isabelle
  imports Main "HOL-Library.Char_ord" "HOL-Library.List_Lexorder" "HOL-Library.Sublist"
    "HOL-Library.AList"
begin

section \<open>Python strings and integers\<close>

text \<open>
  A Python \<open>str\<close> is modelled as a \<open>string\<close> (a list of characters). Python compares
  strings lexicographically by code point, a proper prefix being smaller; that is the
  order of \<open>HOL-Library.List_Lexorder\<close> over \<open>HOL-Library.Char_ord\<close>. \<open>sorted\<close> is
  \<open>sort\<close>. Names and labels are taken to be ASCII, one character per code point.
\<close>

definition digit_char :: "nat \<Rightarrow> char" where
  "digit_char d = ''0123456789'' ! d"

text \<open>\<open>str(n)\<close> for a Python int: decimal digits, most significant first, \<open>-\<close> in front
  of a negative number.\<close>

function str_nat :: "nat \<Rightarrow> string" where
  "str_nat n = (if n < 10 then [digit_char n] else str_nat (n div 10) @ [digit_char (n mod 10)])"
  by pat_completeness auto
termination
  by (relation "measure id") auto

declare str_nat.simps [simp del]

definition str_int :: "int \<Rightarrow> string" where
  "str_int i = (if i < 0 then CHR ''-'' # str_nat (nat (- i)) else str_nat (nat i))"

definition isdigit :: "char \<Rightarrow> bool" where
  "isdigit c = (c \<in> set ''0123456789'')"

text \<open>The parameter \<open>year\<close> of the merger is an int or \<open>None\<close>.\<close>

type_synonym year = "int option"

text \<open>\<open>if year:\<close> tests Python truthiness: \<open>None\<close> and \<open>0\<close> are false.\<close>

definition truthy :: "year \<Rightarrow> bool" where
  "truthy year = (case year of None \<Rightarrow> False | Some y \<Rightarrow> y \<noteq> 0)"

definition str :: "year \<Rightarrow> string" where
  "str year = (case year of None \<Rightarrow> ''None'' | Some y \<Rightarrow> str_int y)"

text \<open>\<open>s.endswith(suffix)\<close>.\<close>

definition endswith :: "string \<Rightarrow> string \<Rightarrow> bool" where
  "endswith s suf = (length suf \<le> length s \<and> drop (length s - length suf) s = suf)"

text \<open>\<open>s.lower()\<close> on ASCII text, and \<open>s.replace(" ", "")\<close>.\<close>

definition lower_char :: "char \<Rightarrow> char" where
  "lower_char c =
     (case map_of (zip ''ABCDEFGHIJKLMNOPQRSTUVWXYZ'' ''abcdefghijklmnopqrstuvwxyz'') c of
        Some l \<Rightarrow> l
      | None \<Rightarrow> c)"

definition lower :: "string \<Rightarrow> string" where
  "lower s = map lower_char s"

definition remove_spaces :: "string \<Rightarrow> string" where
  "remove_spaces s = filter (\<lambda>c. c \<noteq> CHR '' '') s"

text \<open>\<open>s.split("/")[-1]\<close>: what follows the last \<open>/\<close>, the whole string when there is
  none. \<open>s[:-4]\<close>: all but the last four characters, the empty string when there are no
  more than four.\<close>

definition split_last :: "string \<Rightarrow> string" where
  "split_last s = rev (takeWhile (\<lambda>c. c \<noteq> CHR ''/'') (rev s))"

definition drop_last4 :: "string \<Rightarrow> string" where
  "drop_last4 s = take (length s - 4) s"

text \<open>
  The missing-value marker of the birth-year column is the two characters backslash, N.
  \<open>re.sub(r"\\N", "0", s)\<close> replaces its occurrences, leftmost first and without overlap.
\<close>

definition marker :: string where
  "marker = [CHR 0x5C, CHR ''N'']"

fun re_sub_marker :: "string \<Rightarrow> string" where
  "re_sub_marker (a # b # s) =
     (if a = CHR 0x5C \<and> b = CHR ''N'' then ''0'' @ re_sub_marker s
      else a # re_sub_marker (b # s))"
| "re_sub_marker s = s"

section \<open>Data frames\<close>

text \<open>
  A data frame is modelled as pandas holds it in memory. A cell holds an integer, a
  floating-point number, a text, or is missing (\<open>NA\<close>: pandas' NaN/None). A floating-point
  number is kept as the text Python writes for it (\<open>1985.0\<close>); the numbers of a numeric
  column that has missing cells are read as floating-point numbers. A row maps a column
  label to its cell; a data frame is its column labels and its rows, in order. The cells
  of a frame are those at its own labels.
\<close>

datatype cell = NA | IntV int | FloatV string | StrV string

type_synonym row = "string \<Rightarrow> cell"

record table =
  columns :: "string list"
  rows :: "row list"

definition mk_row :: "(string \<times> cell) list \<Rightarrow> row" where
  "mk_row kvs = (\<lambda>c. case map_of kvs c of Some v \<Rightarrow> v | None \<Rightarrow> NA)"

text \<open>\<open>df.columns = new_columns\<close>: the labels are replaced position by position. Should two
  columns get the same label, a row reads the first of them at that label.\<close>

definition set_columns :: "string list \<Rightarrow> table \<Rightarrow> table" where
  "set_columns new_columns df =
     \<lparr>columns = new_columns,
      rows = map (\<lambda>r. mk_row (zip new_columns (map r (columns df)))) (rows df)\<rparr>"

text \<open>\<open>df.dropna(inplace=True)\<close>: a row with a missing cell in any column is dropped.\<close>

definition dropna :: "table \<Rightarrow> table" where
  "dropna df = df\<lparr>rows := filter (\<lambda>r. list_all (\<lambda>c. r c \<noteq> NA) (columns df)) (rows df)\<rparr>"

text \<open>\<open>series.replace(r"\\N", "0", regex=True)\<close> on one cell: only text is matched.\<close>

definition replace_marker :: "cell \<Rightarrow> cell" where
  "replace_marker v = (case v of StrV s \<Rightarrow> StrV (re_sub_marker s) | _ \<Rightarrow> v)"

text \<open>
  \<open>series.astype("str")\<close> on one cell: a number becomes the text Python writes for it, a
  text stays as it is. What becomes of a missing cell depends on the version and the
  configuration of the library and on the type of the column: the cell stays missing
  (\<open>None\<close> below), or it becomes a text such as \<open>None\<close> or \<open>nan\<close> (\<open>Some t\<close>).
\<close>

definition astype_str :: "string option \<Rightarrow> cell \<Rightarrow> cell" where
  "astype_str na v =
     (case v of
        NA \<Rightarrow> (case na of None \<Rightarrow> NA | Some t \<Rightarrow> StrV t)
      | IntV i \<Rightarrow> StrV (str_int i)
      | FloatV t \<Rightarrow> StrV t
      | StrV s \<Rightarrow> StrV s)"

datatype error =
    FileNotFoundError string
  | ParserError string
  | ArrowInvalid string
  | KeyError string
  | ValueError string

text \<open>\<open>df[c] = g(df[c])\<close>: reading a column the frame does not have raises \<open>KeyError\<close>.\<close>

definition update_column :: "string \<Rightarrow> (cell \<Rightarrow> cell) \<Rightarrow> table \<Rightarrow> error + table" where
  "update_column c g df =
     (if c \<in> set (columns df)
      then Inr (df\<lparr>rows := map (\<lambda>r. r(c := g (r c))) (rows df)\<rparr>)
      else Inl (KeyError c))"

text \<open>
  \<open>dd.concat(dfs)\<close> (axis 0, outer join): the rows of the frames one after another, in
  the order of the list, under the union of their labels, each label where it first
  occurs; a label a frame lacks reads \<open>NA\<close> in its rows. An empty list raises
  \<open>ValueError("No objects to concatenate")\<close>.
\<close>

definition first_occurrences :: "string list \<Rightarrow> string list" where
  "first_occurrences labels = rev (remdups (rev labels))"

definition restrict_row :: "string list \<Rightarrow> row \<Rightarrow> row" where
  "restrict_row cols r = (\<lambda>c. if c \<in> set cols then r c else NA)"

definition dd_concat :: "table list \<Rightarrow> error + table" where
  "dd_concat dfs =
     (if dfs = [] then Inl (ValueError ''No objects to concatenate'')
      else Inr \<lparr>columns = first_occurrences (concat (map columns dfs)),
                rows = concat (map (\<lambda>df. map (restrict_row (columns df)) (rows df)) dfs)\<rparr>)"

section \<open>The file system\<close>

text \<open>
  The file system is a finite map from paths to files, kept as an association list. A
  file is delimited text or a columnar data set, each holding a data frame; a columnar
  file records the schema override it was written with. Directories hold files only, and
  the directory \<open>d\<close> lists the names \<open>f\<close> for which \<open>d/f\<close> is a file.
\<close>

datatype arrow_type = ArrowString

type_synonym schema = "(string \<times> arrow_type) list"

datatype content = CsvFile table | ParquetFile table schema

type_synonym fs = "(string \<times> content) list"

definition dirpath :: "string \<Rightarrow> string" where
  "dirpath d = (if endswith d ''/'' then d else d @ ''/'')"

definition os_listdir :: "string \<Rightarrow> fs \<Rightarrow> string list" where
  "os_listdir directory fs =
     remdups
       (filter (\<lambda>f. f \<noteq> [] \<and> CHR ''/'' \<notin> set f)
         (map (\<lambda>p. drop (length (dirpath directory)) p)
           (filter (\<lambda>p. prefix (dirpath directory) p) (map fst fs))))"

definition os_path_exists :: "string \<Rightarrow> fs \<Rightarrow> bool" where
  "os_path_exists p fs = (map_of fs p \<noteq> None)"

definition read_csv :: "string \<Rightarrow> fs \<Rightarrow> error + table" where
  "read_csv p fs =
     (case map_of fs p of
        None \<Rightarrow> Inl (FileNotFoundError p)
      | Some (CsvFile df) \<Rightarrow> Inr df
      | Some (ParquetFile df s) \<Rightarrow> Inl (ParserError p))"

definition read_parquet :: "string \<Rightarrow> fs \<Rightarrow> error + table" where
  "read_parquet p fs =
     (case map_of fs p of
        None \<Rightarrow> Inl (FileNotFoundError p)
      | Some (CsvFile df) \<Rightarrow> Inl (ArrowInvalid p)
      | Some (ParquetFile df s) \<Rightarrow> Inr df)"

definition to_parquet :: "table \<Rightarrow> string \<Rightarrow> schema \<Rightarrow> fs \<Rightarrow> fs" where
  "to_parquet df p s fs = AList.update p (ParquetFile df s) fs"

section \<open>The converter\<close>

text \<open>
  The body of the loop of \<open>convert_to_parquet\<close>:
  \<^verbatim>\<open>
    filename = csv_file.split("/")[-1][:-4]
    newfilepath = directory_to + filename + ".parquet"
    csv_df = pd.read_csv(csv_file)
    csv_df.columns = [col.lower().replace(" ", "") for col in csv_df.columns]
    csv_df.dropna(inplace=True)
    csv_df["birthyear"] = csv_df["birthyear"].replace(r"\\N", "0", regex=True)
    csv_df.to_parquet(newfilepath)
  \<close>
\<close>

definition newfilepath :: "string \<Rightarrow> string \<Rightarrow> string" where
  "newfilepath csv_file directory_to =
     (let filename = drop_last4 (split_last csv_file)
      in directory_to @ filename @ ''.parquet'')"

definition clean_columns :: "table \<Rightarrow> table" where
  "clean_columns csv_df =
     dropna (set_columns (map (\<lambda>col. remove_spaces (lower col)) (columns csv_df)) csv_df)"

definition convert_file :: "string \<Rightarrow> string \<Rightarrow> fs \<Rightarrow> error + fs" where
  "convert_file csv_file directory_to fs =
     (case read_csv csv_file fs of
        Inl e \<Rightarrow> Inl e
      | Inr csv_df \<Rightarrow>
          (case update_column ''birthyear'' replace_marker (clean_columns csv_df) of
             Inl e \<Rightarrow> Inl e
           | Inr csv_df' \<Rightarrow> Inr (to_parquet csv_df' (newfilepath csv_file directory_to) [] fs)))"

text \<open>The loop: the files in sorted order, stopping at the first exception.\<close>

fun convert_files :: "string list \<Rightarrow> string \<Rightarrow> fs \<Rightarrow> error + fs" where
  "convert_files [] directory_to fs = Inr fs"
| "convert_files (csv_file # csv_files) directory_to fs =
     (case convert_file csv_file directory_to fs of
        Inl e \<Rightarrow> Inl e
      | Inr fs' \<Rightarrow> convert_files csv_files directory_to fs')"

definition convert_to_parquet :: "string \<Rightarrow> string \<Rightarrow> fs \<Rightarrow> error + fs" where
  "convert_to_parquet directory_from directory_to fs =
     (let csv_files = sort (map (\<lambda>f. directory_from @ f) (os_listdir directory_from fs))
      in convert_files csv_files directory_to fs)"

section \<open>The merger\<close>

definition PARQUET_EXTENSION :: string where
  "PARQUET_EXTENSION = ''.parquet''"

text \<open>
  The first statement of \<open>merge_monthly_trips\<close>; \<open>listing\<close> is what
  \<open>os.listdir(directory)\<close> returned (names without the directory, in any order):
  \<^verbatim>\<open>
    if year:
        range_start = str(year) + "-01"
        range_end = str(year) + "-13"
        month_files = sorted([directory + f for f in os.listdir(directory)
                              if range_start <= f <= range_end])
    else:
        month_files = sorted([directory + f for f in os.listdir(directory)
                              if f.endswith(PARQUET_EXTENSION)])
  \<close>
\<close>

definition month_files :: "year \<Rightarrow> string \<Rightarrow> string list \<Rightarrow> string list" where
  "month_files year directory listing =
     (if truthy year then
        (let range_start = str year @ ''-01'';
             range_end = str year @ ''-13''
         in sort (map (\<lambda>f. directory @ f)
                   (filter (\<lambda>f. range_start \<le> f \<and> f \<le> range_end) listing)))
      else
        sort (map (\<lambda>f. directory @ f)
               (filter (\<lambda>f. endswith f PARQUET_EXTENSION) listing)))"

text \<open>
  The reading loop, \<open>parquet_ddfs\<close> being the list built so far; \<open>na_as\<close> says, for each
  frame read, what the library's cast to text makes of a missing cell of its column:
  \<^verbatim>\<open>
    for month_file in month_files:
        if os.path.exists(month_file):
            ddf = dd.read_parquet(month_file)
            ddf["birthyear"] = ddf["birthyear"].astype("str")
            parquet_ddfs.append(ddf)
  \<close>
\<close>

fun read_month_files ::
  "(table \<Rightarrow> string option) \<Rightarrow> string list \<Rightarrow> fs \<Rightarrow> table list \<Rightarrow> error + table list" where
  "read_month_files na_as [] fs parquet_ddfs = Inr parquet_ddfs"
| "read_month_files na_as (month_file # rest) fs parquet_ddfs =
     (if os_path_exists month_file fs then
        (case read_parquet month_file fs of
           Inl e \<Rightarrow> Inl e
         | Inr ddf \<Rightarrow>
             (case update_column ''birthyear'' (astype_str (na_as ddf)) ddf of
                Inl e \<Rightarrow> Inl e
              | Inr ddf' \<Rightarrow> read_month_files na_as rest fs (parquet_ddfs @ [ddf'])))
      else read_month_files na_as rest fs parquet_ddfs)"

text \<open>
  The rest of the function:
  \<^verbatim>\<open>
    all_trips = dd.concat(parquet_ddfs)
    filename = str(year) if year else "alltrips"
    all_trips.to_parquet(directory + filename + PARQUET_EXTENSION,
                         schema={"birthyear": pa.string()}, engine="pyarrow")
  \<close>
\<close>

definition output_path :: "year \<Rightarrow> string \<Rightarrow> string" where
  "output_path year directory =
     (let filename = (if truthy year then str year else ''alltrips'')
      in directory @ filename @ PARQUET_EXTENSION)"

definition merge_monthly_trips ::
  "(table \<Rightarrow> string option) \<Rightarrow> year \<Rightarrow> string \<Rightarrow> fs \<Rightarrow> error + fs" where
  "merge_monthly_trips na_as year directory fs =
     (case read_month_files na_as (month_files year directory (os_listdir directory fs)) fs [] of
        Inl e \<Rightarrow> Inl e
      | Inr parquet_ddfs \<Rightarrow>
          (case dd_concat parquet_ddfs of
             Inl e \<Rightarrow> Inl e
           | Inr all_trips \<Rightarrow>
               Inr (to_parquet all_trips (output_path year directory)
                     [(''birthyear'', ArrowString)] fs)))"

section \<open>Test data of the specification\<close>

text \<open>The twelve monthly files of 2019.\<close>

definition months_2019 :: "string list" where
  "months_2019 =
     [''2019-01.parquet'', ''2019-02.parquet'', ''2019-03.parquet'', ''2019-04.parquet'',
      ''2019-05.parquet'', ''2019-06.parquet'', ''2019-07.parquet'', ''2019-08.parquet'',
      ''2019-09.parquet'', ''2019-10.parquet'', ''2019-11.parquet'', ''2019-12.parquet'']"

section \<open>Notions used in the statements\<close>

definition is_text :: "cell \<Rightarrow> bool" where
  "is_text v = (case v of StrV s \<Rightarrow> True | _ \<Rightarrow> False)"

text \<open>A frame with its birth-year column turned into text, as the reading loop leaves it.\<close>

definition birthyear_as_text :: "(table \<Rightarrow> string option) \<Rightarrow> table \<Rightarrow> table" where
  "birthyear_as_text na_as df =
     df\<lparr>rows := map (\<lambda>r. r(''birthyear'' := astype_str (na_as df) (r ''birthyear''))) (rows df)\<rparr>"

text \<open>The birth-year column of a frame, top to bottom.\<close>

definition birthyears :: "table \<Rightarrow> cell list" where
  "birthyears df = map (\<lambda>r. r ''birthyear'') (rows df)"

section \<open>Test data\<close>

text \<open>Two behaviours of the library on the missing cells of a column cast to text.\<close>

definition leave_missing :: "table \<Rightarrow> string option" where
  "leave_missing df = None"

definition write_None :: "table \<Rightarrow> string option" where
  "write_None df = Some ''None''"

text \<open>Two monthly files, the first storing the birth year as a number, the second as
  text.\<close>

definition fs_mixed :: fs where
  "fs_mixed =
     [(''data/2019-01.parquet'',
        ParquetFile \<lparr>columns = [''birthyear''], rows = [mk_row [(''birthyear'', IntV 1985)]]\<rparr> []),
      (''data/2019-02.parquet'',
        ParquetFile \<lparr>columns = [''birthyear''], rows = [mk_row [(''birthyear'', StrV ''0'')]]\<rparr> [])]"

text \<open>A directory \<open>data\<close> with one monthly file, and a file beside the directory whose
  path is the directory's path followed by that file's name.\<close>

definition fs_no_slash :: fs where
  "fs_no_slash =
     [(''data/a.parquet'', ParquetFile \<lparr>columns = [''birthyear''], rows = []\<rparr> []),
      (''dataa.parquet'', ParquetFile \<lparr>columns = [''birthyear''], rows = []\<rparr> [])]"

text \<open>A source directory with one monthly delimited-text file of three rows: the birth
  year of the first is the missing-value marker, the third has no birth year at all.\<close>

definition df_csv :: table where
  "df_csv =
     \<lparr>columns = [''tripduration'', ''Birth Year''],
      rows = [mk_row [(''tripduration'', IntV 320), (''Birth Year'', StrV marker)],
              mk_row [(''tripduration'', IntV 200), (''Birth Year'', StrV ''1985'')],
              mk_row [(''tripduration'', IntV 150), (''Birth Year'', NA)]]\<rparr>"

definition fs_csv :: fs where
  "fs_csv = [(''csv/2019-01.csv'', CsvFile df_csv)]"

text \<open>A source directory whose only file has a name without an extension.\<close>

definition fs_plain :: fs where
  "fs_plain = [(''csv/2019-01'', CsvFile df_csv)]"

text \<open>A source directory with two monthly files.\<close>

definition fs_two_csv :: fs where
  "fs_two_csv = [(''csv/2019-02.csv'', CsvFile df_csv), (''csv/2019-01.csv'', CsvFile df_csv)]"

text \<open>Monthly files whose birth years are a number, a floating-point number and a
  text, the second file with a missing birth year.\<close>

definition fs_typed :: fs where
  "fs_typed =
     [(''data/2019-01.parquet'',
        ParquetFile \<lparr>columns = [''birthyear''], rows = [mk_row [(''birthyear'', IntV 1985)]]\<rparr> []),
      (''data/2019-02.parquet'',
        ParquetFile \<lparr>columns = [''birthyear''],
                     rows = [mk_row [(''birthyear'', FloatV ''1990.0'')], mk_row []]\<rparr> []),
      (''data/2019-03.parquet'',
        ParquetFile \<lparr>columns = [''birthyear''], rows = [mk_row [(''birthyear'', StrV ''0'')]]\<rparr> [])]"

section \<open>Facts about strings\<close>

lemma endswith_iff: "endswith s suf \<longleftrightarrow> (\<exists>stem. s = stem @ suf)"
proof
  assume "endswith s suf"
  then have "s = take (length s - length suf) s @ suf"
    unfolding endswith_def by (metis append_take_drop_id)
  then show "\<exists>stem. s = stem @ suf" ..
next
  assume "\<exists>stem. s = stem @ suf"
  then show "endswith s suf"
    unfolding endswith_def by auto
qed

lemma set_month_files_year:
  assumes "truthy year"
  shows "set (month_files year directory listing) =
         {directory @ f | f. f \<in> set listing \<and> str year @ ''-01'' \<le> f \<and> f \<le> str year @ ''-13''}"
  using assms unfolding month_files_def Let_def by auto

lemma set_month_files_all:
  assumes "\<not> truthy year"
  shows "set (month_files year directory listing) =
         {directory @ f | f. f \<in> set listing \<and> endswith f PARQUET_EXTENSION}"
  using assms unfolding month_files_def by auto

lemma digit_char_inj: "d < 10 \<Longrightarrow> e < 10 \<Longrightarrow> digit_char d = digit_char e \<Longrightarrow> d = e"
proof -
  assume d: "d < 10" and e: "e < 10" and eq: "digit_char d = digit_char e"
  have D: "d \<in> {0,1,2,3,4,5,6,7,8,9}" using d by auto
  have E: "e \<in> {0,1,2,3,4,5,6,7,8,9}" using e by auto
  show ?thesis using D E eq by (auto simp: digit_char_def)
qed

lemma digit_char_digit: "d < 10 \<Longrightarrow> isdigit (digit_char d)"
  unfolding digit_char_def isdigit_def by (rule nth_mem) simp

lemma str_nat_nonempty: "str_nat n \<noteq> []"
  by (subst str_nat.simps) simp

lemma str_nat_digits: "\<forall>c\<in>set (str_nat n). isdigit c"
proof (induction n rule: str_nat.induct)
  case (1 n)
  show ?case
  proof (cases "n < 10")
    case True
    then show ?thesis using digit_char_digit [of n] by (subst str_nat.simps) simp
  next
    case False
    have "n mod 10 < 10" by simp
    then have "isdigit (digit_char (n mod 10))" by (rule digit_char_digit)
    with False "1.IH" show ?thesis by (subst str_nat.simps) simp
  qed
qed

lemma str_nat_inj: "str_nat m = str_nat n \<Longrightarrow> m = n"
proof (induction m arbitrary: n rule: str_nat.induct)
  case (1 m)
  show ?case
  proof (cases "m < 10")
    case m: True
    show ?thesis
    proof (cases "n < 10")
      case True
      with m "1.prems" show ?thesis
        by (simp add: str_nat.simps [of m] str_nat.simps [of n] digit_char_inj)
    next
      case False
      with m "1.prems" str_nat_nonempty [of "n div 10"] show ?thesis
        by (simp add: str_nat.simps [of m] str_nat.simps [of n])
    qed
  next
    case m: False
    show ?thesis
    proof (cases "n < 10")
      case True
      with m "1.prems" str_nat_nonempty [of "m div 10"] show ?thesis
        by (simp add: str_nat.simps [of m] str_nat.simps [of n])
    next
      case False
      with m "1.prems" have a: "str_nat (m div 10) = str_nat (n div 10)"
        and b: "digit_char (m mod 10) = digit_char (n mod 10)"
        by (simp_all add: str_nat.simps [of m] str_nat.simps [of n])
      from "1.IH" [OF m a] have "m div 10 = n div 10" .
      moreover from b have "m mod 10 = n mod 10" by (intro digit_char_inj) simp_all
      ultimately show ?thesis by (metis div_mult_mod_eq)
    qed
  qed
qed

lemma append_le_append: "(p @ x \<le> p @ (y::string)) \<longleftrightarrow> x \<le> y"
  by (induction p) simp_all

lemma between_prefix:
  fixes f :: string
  assumes "p @ a \<le> f" and "f \<le> p @ b"
  shows "prefix p f"
  using assms
proof (induction p arbitrary: f)
  case Nil
  then show ?case by simp
next
  case (Cons c p)
  then show ?case
    by (cases f) (auto simp: )
qed


lemma str_2019: "str (Some 2019) = ''2019''"
  by (simp add: str_def str_int_def str_nat.simps digit_char_def)

lemma year_token_2019:
  assumes "prefix ''2019-'' (str_int y @ ''-'' @ rest)"
  shows "y = 2019"
proof (cases "y < 0")
  case True
  with assms show ?thesis by (simp add: str_int_def)
next
  case False
  let ?s = "str_nat (nat y)"
  from assms obtain zs where "str_int y @ ''-'' @ rest = ''2019-'' @ zs"
    by (rule prefixE)
  with False have zs: "?s @ ''-'' @ rest = ''2019-'' @ zs"
    by (simp add: str_int_def)
  have "\<not> isdigit CHR ''-''" by (simp add: isdigit_def)
  then have "takeWhile isdigit (?s @ ''-'' @ rest) = ?s"
    using str_nat_digits [of "nat y"] by (simp add: takeWhile_append2)
  moreover have "takeWhile isdigit (''2019-'' @ zs) = ''2019''"
    by (simp add: isdigit_def)
  ultimately have "?s = ''2019''" using zs by simp
  also have "''2019'' = str_nat 2019" by (simp add: str_nat.simps digit_char_def)
  finally have "nat y = 2019" by (rule str_nat_inj)
  with False show ?thesis by simp
qed

lemma sorted_map_append: "sorted (xs::string list) \<Longrightarrow> sorted (map (\<lambda>f. d @ f) xs)"
  by (induction xs) (auto simp: append_le_append)

section \<open>Selection by year\<close>

text \<open>
  C1 (as amended). For every supplied non-zero year the merger selects exactly the files
  of the directory whose name lies in the closed range from \<open>str(year) + "-01"\<close> to
  \<open>str(year) + "-13"\<close>, both bounds included; a file whose name is strictly greater than
  the upper bound is never selected.
\<close>

theorem month_files_closed_range:
  assumes "truthy year"
  shows "set (month_files year directory listing) =
           {directory @ f | f. f \<in> set listing \<and> str year @ ''-01'' \<le> f \<and> f \<le> str year @ ''-13''}
         \<and> (\<forall>f. str year @ ''-13'' < f \<longrightarrow> directory @ f \<notin> set (month_files year directory listing))"
  using assms by (auto simp: set_month_files_year)

theorem month_files_closed_range_witness:
  "truthy (Some 2019) \<and>
   set (month_files (Some 2019) ''data/'' [''2019-12.parquet'', ''2019-14'', ''2018-12.parquet'']) =
     {''data/'' @ f | f. f \<in> set [''2019-12.parquet'', ''2019-14'', ''2018-12.parquet'']
        \<and> str (Some 2019) @ ''-01'' \<le> f \<and> f \<le> str (Some 2019) @ ''-13''}
   \<and> ''data/2019-14'' \<notin> set (month_files (Some 2019) ''data/''
         [''2019-12.parquet'', ''2019-14'', ''2018-12.parquet''])"
proof -
  have t: "truthy (Some 2019)" by (simp add: truthy_def)
  have s: "str (Some 2019) = ''2019''"
    by (simp add: str_def str_int_def str_nat.simps digit_char_def)
  note r = month_files_closed_range [OF t, of "''data/''" "[''2019-12.parquet'', ''2019-14'', ''2018-12.parquet'']"]
  have lt: "str (Some 2019) @ ''-13'' < ''2019-14''" by (simp add: s)
  have "''data/'' @ ''2019-14'' \<notin> set (month_files (Some 2019) ''data/''
         [''2019-12.parquet'', ''2019-14'', ''2018-12.parquet''])"
    using r [THEN conjunct2] lt by blast
  then have n: "''data/2019-14'' \<notin> set (month_files (Some 2019) ''data/''
         [''2019-12.parquet'', ''2019-14'', ''2018-12.parquet''])" by simp
  show ?thesis using t r [THEN conjunct1] n by (intro conjI)
qed

text \<open>
  Counterexample to C1 as stated (half-open range): a file named exactly as the upper
  bound, \<open>2019-13\<close>, is selected for the year 2019.
\<close>

theorem month_files_upper_bound_counterexample:
  "str (Some 2019) @ ''-13'' \<le> ''2019-13'' \<and>
   ''data/2019-13'' \<in> set (month_files (Some 2019) ''data/'' [''2019-12.parquet'', ''2019-13''])"
  by (simp add: month_files_def truthy_def str_def str_int_def str_nat.simps digit_char_def)

lemma months_2019_in_range: "\<forall>f\<in>set months_2019. ''2019-01'' \<le> f \<and> f \<le> ''2019-13''"
  by (simp add: months_2019_def)

lemma sorted_months_2019: "sorted months_2019"
  by (simp add: months_2019_def)

lemma distinct_months_2019: "distinct months_2019"
  by (simp add: months_2019_def)

lemma other_year_out_of_range:
  assumes "y \<noteq> 2019" and "f = str_int y @ ''-'' @ rest"
  shows "\<not> (''2019-01'' \<le> f \<and> f \<le> ''2019-13'')"
proof
  assume "''2019-01'' \<le> f \<and> f \<le> ''2019-13''"
  then have "''2019-'' @ ''01'' \<le> f" and "f \<le> ''2019-'' @ ''13''" by simp_all
  then have "prefix ''2019-'' f" by (rule between_prefix)
  then have "prefix ''2019-'' (str_int y @ ''-'' @ rest)" unfolding assms(2) .
  then have "y = 2019" by (rule year_token_2019)
  with assms(1) show False by contradiction
qed

text \<open>
  C2. Let the directory hold the twelve files \<open>2019-01.parquet\<close> to \<open>2019-12.parquet\<close>
  and, besides them, only files of other years: names that start with \<open>str(y) + "-"\<close> for
  a year \<open>y\<close> other than 2019, such as \<open>2018-12.parquet\<close> and \<open>2020-01.parquet\<close>. Then
  the merger called with \<open>year=2019\<close> selects exactly the twelve files, in the order of
  the months, and no file of another year.
\<close>

theorem merge_2019_selects_twelve:
  assumes "distinct listing"
    and "set listing = set months_2019 \<union> others"
    and "\<forall>f\<in>others. \<exists>y rest. y \<noteq> 2019 \<and> f = str_int y @ ''-'' @ rest"
  shows "month_files (Some 2019) directory listing = map (\<lambda>f. directory @ f) months_2019"
proof -
  let ?P = "\<lambda>f::string. ''2019-01'' \<le> f \<and> f \<le> ''2019-13''"
  have b: "\<not> ?P f" if "f \<in> others" for f
  proof -
    from assms(3) that obtain y rest where "y \<noteq> 2019" and "f = str_int y @ ''-'' @ rest"
      by blast
    then show ?thesis by (rule other_year_out_of_range)
  qed
  have c: "set (filter ?P listing) = set months_2019"
  proof
    show "set (filter ?P listing) \<subseteq> set months_2019"
      using b assms(2) by auto
    show "set months_2019 \<subseteq> set (filter ?P listing)"
      using months_2019_in_range assms(2) by auto
  qed
  have d: "distinct (filter ?P listing)" using assms(1) by simp
  let ?xs = "sort (map (\<lambda>f. directory @ f) (filter ?P listing))"
  let ?ys = "map (\<lambda>f. directory @ f) months_2019"
  have ys1: "sorted ?ys"
    by (rule sorted_map_append) (rule sorted_months_2019)
  have ys2: "distinct ?ys"
    by (simp add: distinct_map distinct_months_2019 inj_on_def)
  have xs1: "sorted ?xs" by simp
  have xs2: "distinct ?xs" using d by (simp add: distinct_map inj_on_def)
  have eq: "set ?xs = set ?ys" using c by simp
  have e: "?xs = ?ys" by (rule sorted_distinct_set_unique [OF xs1 xs2 ys1 ys2 eq])
  have t: "truthy (Some 2019)" by (simp add: truthy_def)
  have "month_files (Some 2019) directory listing = ?xs"
    unfolding month_files_def Let_def str_2019 using t by simp
  then show ?thesis using e by simp
qed

theorem merge_2019_selects_twelve_witness:
  "distinct (''2020-01.parquet'' # rev months_2019 @ [''2018-12.parquet''])
   \<and> set (''2020-01.parquet'' # rev months_2019 @ [''2018-12.parquet''])
       = set months_2019 \<union> {''2020-01.parquet'', ''2018-12.parquet''}
   \<and> ''2020-01.parquet'' = str_int 2020 @ ''-'' @ ''01.parquet''
   \<and> ''2018-12.parquet'' = str_int 2018 @ ''-'' @ ''12.parquet''
   \<and> month_files (Some 2019) ''data/2019_parquet/''
         (''2020-01.parquet'' # rev months_2019 @ [''2018-12.parquet''])
       = map (\<lambda>f. ''data/2019_parquet/'' @ f) months_2019"
proof -
  let ?L = "''2020-01.parquet'' # rev months_2019 @ [''2018-12.parquet'']"
  have h1: "distinct ?L" by (simp add: months_2019_def)
  have h2: "set ?L = set months_2019 \<union> {''2020-01.parquet'', ''2018-12.parquet''}" by auto
  have a: "''2020-01.parquet'' = str_int 2020 @ ''-'' @ ''01.parquet''"
    by (simp add: str_int_def str_nat.simps digit_char_def)
  have b: "''2018-12.parquet'' = str_int 2018 @ ''-'' @ ''12.parquet''"
    by (simp add: str_int_def str_nat.simps digit_char_def)
  have "\<exists>y rest. y \<noteq> 2019 \<and> ''2020-01.parquet'' = str_int y @ ''-'' @ rest"
    using a by (intro exI [of _ 2020] exI [of _ "''01.parquet''"]) simp
  moreover have "\<exists>y rest. y \<noteq> 2019 \<and> ''2018-12.parquet'' = str_int y @ ''-'' @ rest"
    using b by (intro exI [of _ 2018] exI [of _ "''12.parquet''"]) simp
  ultimately have h3: "\<forall>f\<in>{''2020-01.parquet'', ''2018-12.parquet''}.
      \<exists>y rest. y \<noteq> 2019 \<and> f = str_int y @ ''-'' @ rest" by blast
  show ?thesis
    using h1 h2 a b merge_2019_selects_twelve [OF h1 h2 h3, of "''data/2019_parquet/''"]
    by (intro conjI)
qed

section \<open>Selection without a year\<close>

text \<open>
  C7. Called with \<open>year=None\<close>, the merger selects every file of the directory whose
  name ends in \<open>.parquet\<close>, whatever year the name encodes, and nothing else.
\<close>

theorem month_files_no_year_all_parquet:
  "set (month_files None directory listing) =
     {directory @ stem @ ''.parquet'' | stem. stem @ ''.parquet'' \<in> set listing}"
  by (auto simp: set_month_files_all truthy_def endswith_iff PARQUET_EXTENSION_def)

theorem month_files_no_year_all_parquet_witness:
  "set (month_files None ''data/'' [''2019-01.parquet'', ''notes.txt'', ''2020-01.parquet'']) =
     {''data/2019-01.parquet'', ''data/2020-01.parquet''}"
proof -
  have "{''data/'' @ stem @ ''.parquet'' | stem.
          stem @ ''.parquet'' \<in> set [''2019-01.parquet'', ''notes.txt'', ''2020-01.parquet'']}
        = {''data/2019-01.parquet'', ''data/2020-01.parquet''}"
    by (auto simp: append_eq_Cons_conv)
  with month_files_no_year_all_parquet [of "''data/''" "[''2019-01.parquet'', ''notes.txt'', ''2020-01.parquet'']"]
  show ?thesis by (rule trans)
qed

text \<open>
  C9. With a year, the selection tests the name's range only: a listed file whose name
  lies in the range is selected whatever its extension (\<open>2019-05.csv\<close> is). Without a
  year, a file whose name does not end in \<open>.parquet\<close> is never selected.
\<close>

theorem year_selection_ignores_extension:
  "(truthy year \<and> f \<in> set listing \<and> str year @ ''-01'' \<le> f \<and> f \<le> str year @ ''-13''
      \<longrightarrow> directory @ f \<in> set (month_files year directory listing))
   \<and> (\<not> endswith f PARQUET_EXTENSION \<longrightarrow> directory @ f \<notin> set (month_files None directory listing))"
  by (auto simp: set_month_files_year set_month_files_all truthy_def)

theorem year_selection_ignores_extension_witness:
  "\<not> endswith ''2019-05.csv'' PARQUET_EXTENSION
   \<and> ''data/2019-05.csv'' \<in> set (month_files (Some 2019) ''data/'' [''2019-05.csv'', ''2019-06.parquet''])
   \<and> ''data/2019-05.csv'' \<notin> set (month_files None ''data/'' [''2019-05.csv'', ''2019-06.parquet''])"
proof -
  have e: "\<not> endswith ''2019-05.csv'' PARQUET_EXTENSION"
    by (simp add: endswith_def PARQUET_EXTENSION_def)
  have t: "truthy (Some 2019) \<and> ''2019-05.csv'' \<in> set [''2019-05.csv'', ''2019-06.parquet'']
      \<and> str (Some 2019) @ ''-01'' \<le> ''2019-05.csv'' \<and> ''2019-05.csv'' \<le> str (Some 2019) @ ''-13''"
    by (simp add: truthy_def str_2019)
  note r = year_selection_ignores_extension [of "Some 2019" "''2019-05.csv''"
      "[''2019-05.csv'', ''2019-06.parquet'']" "''data/''"]
  from r t have "''data/'' @ ''2019-05.csv'' \<in> set (month_files (Some 2019) ''data/'' [''2019-05.csv'', ''2019-06.parquet''])"
    by blast
  moreover from r e have "''data/'' @ ''2019-05.csv'' \<notin> set (month_files None ''data/'' [''2019-05.csv'', ''2019-06.parquet''])"
    by blast
  ultimately show ?thesis using e by simp
qed


text \<open>
  The year 0 is false in \<open>if year:\<close>: the merger treats it as no year, selects every
  \<open>.parquet\<close> file and names its output \<open>alltrips.parquet\<close>.
\<close>

theorem year_zero_is_no_year:
  "month_files (Some 0) directory listing = month_files None directory listing
   \<and> output_path (Some 0) directory = directory @ ''alltrips.parquet''"
  by (simp add: month_files_def output_path_def truthy_def PARQUET_EXTENSION_def)
section \<open>Facts about frames and files\<close>

lemma is_text_astype_str: "v \<noteq> NA \<or> na \<noteq> None \<Longrightarrow> is_text (astype_str na v)"
  by (cases v; cases na) (simp_all add: astype_str_def is_text_def)

lemma astype_str_cases: "is_text (astype_str na v) \<or> astype_str na v = NA"
  by (cases v; cases na) (simp_all add: astype_str_def is_text_def)

lemma mk_row_Cons: "mk_row ((k, v) # kvs) c = (if c = k then v else mk_row kvs c)"
  by (simp add: mk_row_def)

lemma mk_row_Nil: "mk_row [] c = NA"
  by (simp add: mk_row_def)

lemma update_column_Inr:
  assumes "update_column c g df = Inr df'"
  shows "c \<in> set (columns df)"
    and "df' = df\<lparr>rows := map (\<lambda>r. r(c := g (r c))) (rows df)\<rparr>"
  using assms by (auto simp: update_column_def split: if_splits)

lemma map_of_to_parquet:
  "map_of (to_parquet df p s fs) q = (if q = p then Some (ParquetFile df s) else map_of fs q)"
  by (simp add: to_parquet_def update_conv')

lemma insort_map_append:
  "insort (d @ x) (map (\<lambda>f. d @ f) (ys::string list)) = map (\<lambda>f. d @ f) (insort x ys)"
  by (induction ys) (simp_all add: append_le_append)

lemma sort_map_append:
  "sort (map (\<lambda>f. d @ f) (xs::string list)) = map (\<lambda>f. d @ f) (sort xs)"
  by (induction xs) (simp_all add: insort_map_append)

text \<open>
  What the reading loop returns: after the frames it started with, the frames read from
  the paths that exist, in the order of the paths, each with its birth-year column turned
  into text.
\<close>

lemma read_month_files_Inr:
  assumes "read_month_files na_as ps fs acc = Inr parquet_ddfs"
  shows "\<exists>dfs. list_all2 (\<lambda>p df. read_parquet p fs = Inr df)
                 (filter (\<lambda>p. os_path_exists p fs) ps) dfs
             \<and> (\<forall>df\<in>set dfs. ''birthyear'' \<in> set (columns df))
             \<and> parquet_ddfs = acc @ map (birthyear_as_text na_as) dfs"
  using assms
proof (induction ps arbitrary: acc)
  case Nil
  then show ?case by simp
next
  case (Cons p ps)
  show ?case
  proof (cases "os_path_exists p fs")
    case False
    with Cons.prems have "read_month_files na_as ps fs acc = Inr parquet_ddfs" by simp
    from Cons.IH [OF this] False show ?thesis by simp
  next
    case True
    with Cons.prems obtain df df' where
      r: "read_parquet p fs = Inr df" and
      u: "update_column ''birthyear'' (astype_str (na_as df)) df = Inr df'" and
      rest: "read_month_files na_as ps fs (acc @ [df']) = Inr parquet_ddfs"
      by (auto split: sum.splits)
    from Cons.IH [OF rest] obtain dfs where
      dfs: "list_all2 (\<lambda>p df. read_parquet p fs = Inr df) (filter (\<lambda>p. os_path_exists p fs) ps) dfs"
      "\<forall>df\<in>set dfs. ''birthyear'' \<in> set (columns df)"
      "parquet_ddfs = (acc @ [df']) @ map (birthyear_as_text na_as) dfs"
      by blast
    have "df' = birthyear_as_text na_as df"
      unfolding birthyear_as_text_def by (rule update_column_Inr(2) [OF u])
    with dfs r True update_column_Inr(1) [OF u] show ?thesis
      by (intro exI [of _ "df # dfs"]) simp
  qed
qed

lemma dd_concat_Inr:
  assumes "dd_concat dfs = Inr all_trips"
  shows "dfs \<noteq> []"
    and "rows all_trips = concat (map (\<lambda>df. map (restrict_row (columns df)) (rows df)) dfs)"
    and "columns all_trips = first_occurrences (concat (map columns dfs))"
  using assms by (auto simp: dd_concat_def split: if_splits)

lemma merge_monthly_trips_Inr:
  assumes "merge_monthly_trips na_as year directory fs = Inr fs'"
  obtains parquet_ddfs all_trips where
    "read_month_files na_as (month_files year directory (os_listdir directory fs)) fs [] = Inr parquet_ddfs"
    "dd_concat parquet_ddfs = Inr all_trips"
    "fs' = to_parquet all_trips (output_path year directory) [(''birthyear'', ArrowString)] fs"
  using assms unfolding merge_monthly_trips_def by (auto split: sum.splits)

section \<open>The merged output\<close>

lemma birthyears_as_text:
  "birthyears (birthyear_as_text na_as df) = map (astype_str (na_as df)) (birthyears df)"
  by (simp add: birthyears_def birthyear_as_text_def comp_def)

lemma birthyears_concat_rows:
  "\<forall>df\<in>set dfs. ''birthyear'' \<in> set (columns df) \<Longrightarrow>
   map (\<lambda>r. r ''birthyear'') (concat (map (\<lambda>df. map (restrict_row (columns df)) (rows df)) dfs))
     = concat (map birthyears dfs)"
  by (induction dfs) (simp_all add: birthyears_def restrict_row_def comp_def)

lemma birthyears_dd_concat:
  assumes "dd_concat dfs = Inr all_trips"
    and "\<forall>df\<in>set dfs. ''birthyear'' \<in> set (columns df)"
  shows "birthyears all_trips = concat (map birthyears dfs)"
  unfolding birthyears_def [of all_trips] dd_concat_Inr(2) [OF assms(1)]
  by (rule birthyears_concat_rows [OF assms(2)])

text \<open>
  C5. Whenever a merge completes: the frames handed to the concatenation are the selected
  files that exist, in order, each with its birth-year column cast by \<open>astype("str")\<close>,
  so that a number is replaced by the text Python writes for it (\<open>1985\<close> by the text
  \<open>1985\<close>) and a text is kept, whatever type the monthly file stored; the birth-year column
  of the merged frame is these cast columns one after another; every cell of it is text,
  a missing cell apart where the library leaves missing cells missing; and the output file
  is written with the schema override that gives \<open>birthyear\<close> the string type.
\<close>

theorem merged_birthyear_is_text:
  assumes "merge_monthly_trips na_as year directory fs = Inr fs'"
  shows "\<exists>dfs all_trips.
           list_all2 (\<lambda>p df. read_parquet p fs = Inr df)
             (filter (\<lambda>p. os_path_exists p fs) (month_files year directory (os_listdir directory fs)))
             dfs
         \<and> read_month_files na_as (month_files year directory (os_listdir directory fs)) fs []
             = Inr (map (birthyear_as_text na_as) dfs)
         \<and> (\<forall>df\<in>set dfs.
               birthyears (birthyear_as_text na_as df) = map (astype_str (na_as df)) (birthyears df))
         \<and> dd_concat (map (birthyear_as_text na_as) dfs) = Inr all_trips
         \<and> birthyears all_trips
             = concat (map (\<lambda>df. map (astype_str (na_as df)) (birthyears df)) dfs)
         \<and> (\<forall>v\<in>set (birthyears all_trips). is_text v \<or> v = NA)
         \<and> ((\<forall>df\<in>set dfs. na_as df \<noteq> None \<or> NA \<notin> set (birthyears df))
               \<longrightarrow> (\<forall>v\<in>set (birthyears all_trips). is_text v))
         \<and> map_of fs' (output_path year directory)
             = Some (ParquetFile all_trips [(''birthyear'', ArrowString)])
         \<and> astype_str na (IntV i) = StrV (str_int i)
         \<and> astype_str na (FloatV t) = StrV t
         \<and> astype_str na (StrV s) = StrV s"
proof -
  let ?ps = "filter (\<lambda>p. os_path_exists p fs) (month_files year directory (os_listdir directory fs))"
  from assms obtain parquet_ddfs all_trips where
    r: "read_month_files na_as (month_files year directory (os_listdir directory fs)) fs [] = Inr parquet_ddfs"
    and c: "dd_concat parquet_ddfs = Inr all_trips"
    and w: "fs' = to_parquet all_trips (output_path year directory) [(''birthyear'', ArrowString)] fs"
    by (rule merge_monthly_trips_Inr)
  from read_month_files_Inr [OF r] obtain dfs where
    l: "list_all2 (\<lambda>p df. read_parquet p fs = Inr df) ?ps dfs"
    and k: "\<forall>df\<in>set dfs. ''birthyear'' \<in> set (columns df)"
    and p: "parquet_ddfs = map (birthyear_as_text na_as) dfs"
    by auto
  have k': "\<forall>df\<in>set (map (birthyear_as_text na_as) dfs). ''birthyear'' \<in> set (columns df)"
    using k by (simp add: birthyear_as_text_def)
  have b: "birthyears all_trips
      = concat (map (\<lambda>df. map (astype_str (na_as df)) (birthyears df)) dfs)"
    unfolding birthyears_dd_concat [OF c [unfolded p] k']
    by (simp add: comp_def birthyears_as_text)
  have t1: "\<forall>v\<in>set (birthyears all_trips). is_text v \<or> v = NA"
    unfolding b using astype_str_cases by auto
  have t2: "\<forall>v\<in>set (birthyears all_trips). is_text v"
    if h: "\<forall>df\<in>set dfs. na_as df \<noteq> None \<or> NA \<notin> set (birthyears df)"
  proof
    fix v assume "v \<in> set (birthyears all_trips)"
    then obtain df u where df: "df \<in> set dfs" and u: "u \<in> set (birthyears df)"
      and v: "v = astype_str (na_as df) u"
      unfolding b by auto
    from h df u have "u \<noteq> NA \<or> na_as df \<noteq> None" by auto
    then show "is_text v" unfolding v by (rule is_text_astype_str)
  qed
  have o: "map_of fs' (output_path year directory)
      = Some (ParquetFile all_trips [(''birthyear'', ArrowString)])"
    unfolding w by (simp add: map_of_to_parquet)
  have a: "astype_str na (IntV i) = StrV (str_int i)" "astype_str na (FloatV t) = StrV t"
    "astype_str na (StrV s) = StrV s"
    by (simp_all add: astype_str_def)
  from l r [unfolded p] c [unfolded p] b t1 t2 o a birthyears_as_text show ?thesis
    by blast
qed

lemma str_int_2019: "str_int 2019 = ''2019''"
  by (simp add: str_int_def str_nat.simps digit_char_def)

lemma str_int_1985: "str_int 1985 = ''1985''"
  by (simp add: str_int_def str_nat.simps digit_char_def)

lemma listdir_mixed: "os_listdir ''data/'' fs_mixed = [''2019-01.parquet'', ''2019-02.parquet'']"
  by (simp add: os_listdir_def fs_mixed_def dirpath_def endswith_def)

lemma month_files_mixed: "month_files (Some 2019) ''data/'' (os_listdir ''data/'' fs_mixed)
   = [''data/2019-01.parquet'', ''data/2019-02.parquet'']"
  unfolding listdir_mixed by (simp add: month_files_def truthy_def str_def str_int_2019)

lemma output_path_2019: "output_path (Some 2019) ''data/'' = ''data/2019.parquet''"
  by (simp add: output_path_def truthy_def str_def str_int_2019 PARQUET_EXTENSION_def)

lemma listdir_typed:
  "os_listdir ''data/'' fs_typed = [''2019-01.parquet'', ''2019-02.parquet'', ''2019-03.parquet'']"
  by (simp add: os_listdir_def fs_typed_def dirpath_def endswith_def)

lemma month_files_typed: "month_files (Some 2019) ''data/'' (os_listdir ''data/'' fs_typed)
   = [''data/2019-01.parquet'', ''data/2019-02.parquet'', ''data/2019-03.parquet'']"
  unfolding listdir_typed by (simp add: month_files_def truthy_def str_def str_int_2019)

lemma merge_typed:
  "\<exists>fs'. merge_monthly_trips na_as (Some 2019) ''data/'' fs_typed = Inr fs'"
  unfolding merge_monthly_trips_def month_files_typed
  by (simp add: fs_typed_def os_path_exists_def read_parquet_def update_column_def dd_concat_def)

lemma birthyears_typed:
  assumes "merge_monthly_trips na_as (Some 2019) ''data/'' fs_typed = Inr fs'"
    and "list_all2 (\<lambda>p df. read_parquet p fs_typed = Inr df)
          (filter (\<lambda>p. os_path_exists p fs_typed)
             (month_files (Some 2019) ''data/'' (os_listdir ''data/'' fs_typed))) dfs"
  shows "concat (map (\<lambda>df. map (astype_str (na_as df)) (birthyears df)) dfs)
      = [StrV ''1985'', StrV ''1990.0'',
         astype_str (na_as \<lparr>columns = [''birthyear''],
                              rows = [mk_row [(''birthyear'', FloatV ''1990.0'')], mk_row []]\<rparr>) NA,
         StrV ''0'']"
proof -
  have "filter (\<lambda>p. os_path_exists p fs_typed)
          (month_files (Some 2019) ''data/'' (os_listdir ''data/'' fs_typed))
        = [''data/2019-01.parquet'', ''data/2019-02.parquet'', ''data/2019-03.parquet'']"
    unfolding month_files_typed by (simp add: os_path_exists_def fs_typed_def)
  with assms(2) have dfs: "dfs =
      [\<lparr>columns = [''birthyear''], rows = [mk_row [(''birthyear'', IntV 1985)]]\<rparr>,
       \<lparr>columns = [''birthyear''], rows = [mk_row [(''birthyear'', FloatV ''1990.0'')], mk_row []]\<rparr>,
       \<lparr>columns = [''birthyear''], rows = [mk_row [(''birthyear'', StrV ''0'')]]\<rparr>]"
    by (auto simp: list_all2_Cons1 read_parquet_def fs_typed_def)
  show ?thesis
    unfolding dfs
    by (simp add: birthyears_def mk_row_Cons mk_row_Nil str_int_1985
        astype_str_def [of _ "IntV 1985"] astype_str_def [of _ "FloatV ''1990.0''"]
        astype_str_def [of _ "StrV ''0''"])
qed

theorem merged_birthyear_is_text_witness:
  "(\<exists>fs' all_trips.
      merge_monthly_trips leave_missing (Some 2019) ''data/'' fs_typed = Inr fs'
    \<and> map_of fs' ''data/2019.parquet'' = Some (ParquetFile all_trips [(''birthyear'', ArrowString)])
    \<and> birthyears all_trips = [StrV ''1985'', StrV ''1990.0'', NA, StrV ''0''])
   \<and> (\<exists>fs' all_trips.
      merge_monthly_trips write_None (Some 2019) ''data/'' fs_typed = Inr fs'
    \<and> map_of fs' ''data/2019.parquet'' = Some (ParquetFile all_trips [(''birthyear'', ArrowString)])
    \<and> birthyears all_trips = [StrV ''1985'', StrV ''1990.0'', StrV ''None'', StrV ''0''])"
proof
  from merge_typed obtain fs' where
    m: "merge_monthly_trips leave_missing (Some 2019) ''data/'' fs_typed = Inr fs'" ..
  from merged_birthyear_is_text [OF m] obtain dfs all_trips where
    l: "list_all2 (\<lambda>p df. read_parquet p fs_typed = Inr df)
          (filter (\<lambda>p. os_path_exists p fs_typed)
             (month_files (Some 2019) ''data/'' (os_listdir ''data/'' fs_typed))) dfs"
    and b: "birthyears all_trips
          = concat (map (\<lambda>df. map (astype_str (leave_missing df)) (birthyears df)) dfs)"
    and out: "map_of fs' (output_path (Some 2019) ''data/'')
          = Some (ParquetFile all_trips [(''birthyear'', ArrowString)])"
    by blast
  have v: "birthyears all_trips = [StrV ''1985'', StrV ''1990.0'', NA, StrV ''0'']"
    unfolding b birthyears_typed [OF m l] by (simp add: astype_str_def leave_missing_def)
  have o: "map_of fs' ''data/2019.parquet'' = Some (ParquetFile all_trips [(''birthyear'', ArrowString)])"
    using out unfolding output_path_2019 .
  show "\<exists>fs' all_trips.
      merge_monthly_trips leave_missing (Some 2019) ''data/'' fs_typed = Inr fs'
    \<and> map_of fs' ''data/2019.parquet'' = Some (ParquetFile all_trips [(''birthyear'', ArrowString)])
    \<and> birthyears all_trips = [StrV ''1985'', StrV ''1990.0'', NA, StrV ''0'']"
    by (rule exI [of _ fs'], rule exI [of _ all_trips]) (simp only: m o v simp_thms)
next
  from merge_typed obtain fs' where
    m: "merge_monthly_trips write_None (Some 2019) ''data/'' fs_typed = Inr fs'" ..
  from merged_birthyear_is_text [OF m] obtain dfs all_trips where
    l: "list_all2 (\<lambda>p df. read_parquet p fs_typed = Inr df)
          (filter (\<lambda>p. os_path_exists p fs_typed)
             (month_files (Some 2019) ''data/'' (os_listdir ''data/'' fs_typed))) dfs"
    and b: "birthyears all_trips
          = concat (map (\<lambda>df. map (astype_str (write_None df)) (birthyears df)) dfs)"
    and out: "map_of fs' (output_path (Some 2019) ''data/'')
          = Some (ParquetFile all_trips [(''birthyear'', ArrowString)])"
    by blast
  have v: "birthyears all_trips = [StrV ''1985'', StrV ''1990.0'', StrV ''None'', StrV ''0'']"
    unfolding b birthyears_typed [OF m l] by (simp add: astype_str_def write_None_def)
  have o: "map_of fs' ''data/2019.parquet'' = Some (ParquetFile all_trips [(''birthyear'', ArrowString)])"
    using out unfolding output_path_2019 .
  show "\<exists>fs' all_trips.
      merge_monthly_trips write_None (Some 2019) ''data/'' fs_typed = Inr fs'
    \<and> map_of fs' ''data/2019.parquet'' = Some (ParquetFile all_trips [(''birthyear'', ArrowString)])
    \<and> birthyears all_trips = [StrV ''1985'', StrV ''1990.0'', StrV ''None'', StrV ''0'']"
    by (rule exI [of _ fs'], rule exI [of _ all_trips]) (simp only: m o v simp_thms)
qed

text \<open>
  C6. Whenever a merge completes, the merged frame holds the rows of the selected files
  that exist, each file's rows in their order in the file (with the birth year as text),
  the files in ascending order of their names.
\<close>

theorem merged_rows_in_file_order:
  assumes "merge_monthly_trips na_as year directory fs = Inr fs'"
  shows "\<exists>names dfs all_trips.
           map (\<lambda>f. directory @ f) names
             = filter (\<lambda>p. os_path_exists p fs) (month_files year directory (os_listdir directory fs))
         \<and> sorted names \<and> distinct names
         \<and> list_all2 (\<lambda>f df. read_parquet (directory @ f) fs = Inr df) names dfs
         \<and> map_of fs' (output_path year directory)
             = Some (ParquetFile all_trips [(''birthyear'', ArrowString)])
         \<and> rows all_trips
             = concat (map (\<lambda>df. map (\<lambda>r. restrict_row (columns df)
                                           (r(''birthyear'' := astype_str (na_as df) (r ''birthyear''))))
                                  (rows df)) dfs)"
proof -
  from assms obtain parquet_ddfs all_trips where
    r: "read_month_files na_as (month_files year directory (os_listdir directory fs)) fs [] = Inr parquet_ddfs"
    and c: "dd_concat parquet_ddfs = Inr all_trips"
    and w: "fs' = to_parquet all_trips (output_path year directory) [(''birthyear'', ArrowString)] fs"
    by (rule merge_monthly_trips_Inr)
  let ?ps = "filter (\<lambda>p. os_path_exists p fs) (month_files year directory (os_listdir directory fs))"
  from read_month_files_Inr [OF r] obtain dfs where
    l: "list_all2 (\<lambda>p df. read_parquet p fs = Inr df) ?ps dfs"
    and p: "parquet_ddfs = map (birthyear_as_text na_as) dfs"
    by auto
  obtain sel where m: "month_files year directory (os_listdir directory fs)
      = map (\<lambda>f. directory @ f) (sort (filter sel (os_listdir directory fs)))"
    unfolding month_files_def Let_def by (cases "truthy year") (simp_all add: sort_map_append)
  let ?names = "filter (\<lambda>f. os_path_exists (directory @ f) fs) (sort (filter sel (os_listdir directory fs)))"
  have n1: "map (\<lambda>f. directory @ f) ?names = ?ps"
    unfolding m by (simp add: filter_map comp_def)
  have n2: "sorted ?names" by (rule sorted_wrt_filter) simp
  have n3: "distinct ?names" by (simp add: os_listdir_def)
  have n4: "list_all2 (\<lambda>f df. read_parquet (directory @ f) fs = Inr df) ?names dfs"
    using l unfolding n1 [symmetric] by (simp add: list_all2_map1)
  have n5: "map_of fs' (output_path year directory)
      = Some (ParquetFile all_trips [(''birthyear'', ArrowString)])"
    unfolding w by (simp add: map_of_to_parquet)
  have n6: "rows all_trips
      = concat (map (\<lambda>df. map (\<lambda>r. restrict_row (columns df)
                                  (r(''birthyear'' := astype_str (na_as df) (r ''birthyear'')))) (rows df)) dfs)"
    unfolding dd_concat_Inr(2) [OF c] p by (simp add: birthyear_as_text_def comp_def)
  from n1 n2 n3 n4 n5 n6 show ?thesis by blast
qed

lemma listdir_rev_mixed:
  "os_listdir ''data/'' (rev fs_mixed) = [''2019-02.parquet'', ''2019-01.parquet'']"
  by (simp add: os_listdir_def fs_mixed_def dirpath_def endswith_def)

lemma month_files_rev_mixed:
  "month_files (Some 2019) ''data/'' (os_listdir ''data/'' (rev fs_mixed))
   = [''data/2019-01.parquet'', ''data/2019-02.parquet'']"
  unfolding listdir_rev_mixed by (simp add: month_files_def truthy_def str_def str_int_2019)

lemma merge_rev_mixed:
  "\<exists>fs'. merge_monthly_trips leave_missing (Some 2019) ''data/'' (rev fs_mixed) = Inr fs'"
  unfolding merge_monthly_trips_def month_files_rev_mixed
  by (simp add: fs_mixed_def os_path_exists_def read_parquet_def update_column_def dd_concat_def)

theorem merged_rows_in_file_order_witness:
  "\<exists>fs' all_trips.
      merge_monthly_trips leave_missing (Some 2019) ''data/'' (rev fs_mixed) = Inr fs'
    \<and> map_of fs' ''data/2019.parquet'' = Some (ParquetFile all_trips [(''birthyear'', ArrowString)])
    \<and> map (\<lambda>r. r ''birthyear'') (rows all_trips) = [StrV ''1985'', StrV ''0'']"
proof -
  from merge_rev_mixed obtain fs' where
    m: "merge_monthly_trips leave_missing (Some 2019) ''data/'' (rev fs_mixed) = Inr fs'" ..
  from merged_rows_in_file_order [OF m] obtain names dfs all_trips where
    a: "map (\<lambda>f. ''data/'' @ f) names
          = filter (\<lambda>p. os_path_exists p (rev fs_mixed))
              (month_files (Some 2019) ''data/'' (os_listdir ''data/'' (rev fs_mixed)))"
    and l: "list_all2 (\<lambda>f df. read_parquet (''data/'' @ f) (rev fs_mixed) = Inr df) names dfs"
    and out: "map_of fs' (output_path (Some 2019) ''data/'')
          = Some (ParquetFile all_trips [(''birthyear'', ArrowString)])"
    and rws: "rows all_trips
          = concat (map (\<lambda>df. map (\<lambda>r. restrict_row (columns df)
                                  (r(''birthyear'' := astype_str (leave_missing df) (r ''birthyear''))))
                        (rows df)) dfs)"
    by blast
  have "map (\<lambda>f. ''data/'' @ f) names = [''data/2019-01.parquet'', ''data/2019-02.parquet'']"
    unfolding a month_files_rev_mixed by (simp add: os_path_exists_def fs_mixed_def)
  then have names: "names = [''2019-01.parquet'', ''2019-02.parquet'']"
    by (auto simp: map_eq_Cons_conv)
  from l have dfs: "dfs =
      [\<lparr>columns = [''birthyear''], rows = [mk_row [(''birthyear'', IntV 1985)]]\<rparr>,
       \<lparr>columns = [''birthyear''], rows = [mk_row [(''birthyear'', StrV ''0'')]]\<rparr>]"
    unfolding names by (auto simp: list_all2_Cons1 read_parquet_def fs_mixed_def)
  have v: "map (\<lambda>r. r ''birthyear'') (rows all_trips) = [StrV ''1985'', StrV ''0'']"
    unfolding rws dfs
    by (simp add: restrict_row_def mk_row_def astype_str_def str_int_def str_nat.simps digit_char_def)
  have o: "map_of fs' ''data/2019.parquet'' = Some (ParquetFile all_trips [(''birthyear'', ArrowString)])"
    using out unfolding output_path_2019 .
  show ?thesis
    by (rule exI [of _ fs'], rule exI [of _ all_trips]) (simp only: m o v simp_thms)
qed

section \<open>An empty selection\<close>

text \<open>
  C3 (as amended). When no file of the directory is selected (here: none matches the
  year's range, or none ends in \<open>.parquet\<close> when there is no year), the merger hands an
  empty list to the concatenation, which raises \<open>ValueError\<close>; the exception is not
  handled and no output is written.
\<close>

theorem merge_empty_selection_raises:
  assumes "month_files year directory (os_listdir directory fs) = []"
  shows "merge_monthly_trips na_as year directory fs = Inl (ValueError ''No objects to concatenate'')"
  using assms by (simp add: merge_monthly_trips_def dd_concat_def)


theorem merge_empty_selection_raises_witness:
  "month_files (Some 2018) ''data/'' (os_listdir ''data/'' fs_mixed) = []
   \<and> merge_monthly_trips leave_missing (Some 2018) ''data/'' fs_mixed
       = Inl (ValueError ''No objects to concatenate'')"
proof -
  have s: "str_int 2018 = ''2018''"
    by (simp add: str_int_def str_nat.simps digit_char_def)
  have h: "month_files (Some 2018) ''data/'' (os_listdir ''data/'' fs_mixed) = []"
    unfolding listdir_mixed by (simp add: month_files_def truthy_def str_def s)
  from h merge_empty_selection_raises [OF h, of leave_missing] show ?thesis by (rule conjI)
qed

text \<open>
  Counterexample to C3 as stated: the directory holds the files of 2019 only, the merger
  is called for 2020, nothing is selected, and the call ends in \<open>ValueError\<close> instead of
  an empty result.
\<close>

theorem merge_empty_selection_counterexample:
  "month_files (Some 2020) ''data/'' (os_listdir ''data/'' fs_mixed) = []
   \<and> merge_monthly_trips leave_missing (Some 2020) ''data/'' fs_mixed
       = Inl (ValueError ''No objects to concatenate'')"
proof -
  have s: "str_int 2020 = ''2020''"
    by (simp add: str_int_def str_nat.simps digit_char_def)
  have h: "month_files (Some 2020) ''data/'' (os_listdir ''data/'' fs_mixed) = []"
    unfolding listdir_mixed by (simp add: month_files_def truthy_def str_def s)
  then show ?thesis by (simp add: merge_monthly_trips_def dd_concat_def)
qed

section \<open>Merging twice\<close>

lemma set_os_listdir:
  "set (os_listdir d fs) = {f. f \<noteq> [] \<and> CHR ''/'' \<notin> set f \<and> dirpath d @ f \<in> fst ` set fs}"
proof -
  have eq: "(\<exists>p\<in>fst ` set fs. prefix (dirpath d) p \<and> f = drop (length (dirpath d)) p)
        \<longleftrightarrow> dirpath d @ f \<in> fst ` set fs" (is "?l \<longleftrightarrow> ?r") for f
  proof
    assume ?l
    then obtain p zs where "p \<in> fst ` set fs" "p = dirpath d @ zs" "f = drop (length (dirpath d)) p"
      unfolding prefix_def by blast
    then show ?r by simp
  next
    assume ?r
    moreover have "prefix (dirpath d) (dirpath d @ f)" by simp
    moreover have "f = drop (length (dirpath d)) (dirpath d @ f)" by simp
    ultimately show ?l by blast
  qed
  have "set (os_listdir d fs)
      = {f. f \<noteq> [] \<and> CHR ''/'' \<notin> set f
            \<and> (\<exists>p\<in>fst ` set fs. prefix (dirpath d) p \<and> f = drop (length (dirpath d)) p)}"
    unfolding os_listdir_def by (simp only: set_remdups set_filter set_map) blast
  then show ?thesis by (simp only: eq)
qed

lemma dirpath_slash: "endswith d ''/'' \<Longrightarrow> dirpath d = d"
  by (simp add: dirpath_def)

lemma keys_to_parquet: "fst ` set (to_parquet df p s fs) = insert p (fst ` set fs)"
  by (simp add: to_parquet_def dom_update)

lemma os_path_exists_to_parquet: "os_path_exists p (to_parquet df p s fs)"
  by (simp add: os_path_exists_def map_of_to_parquet)

text \<open>
  C10 (as amended). Let the directory path end in \<open>/\<close>. After a merge with no year has
  completed, its output \<open>alltrips.parquet\<close> is a file of the scanned directory, its name
  passes the no-year filter, and the path exists: a second merge with no year selects it
  and reads it as one of its inputs.
\<close>

theorem second_merge_selects_first_output:
  assumes "endswith directory ''/''"
    and "merge_monthly_trips na_as None directory fs = Inr fs'"
  shows "output_path None directory = directory @ ''alltrips.parquet''
       \<and> ''alltrips.parquet'' \<in> set (os_listdir directory fs')
       \<and> directory @ ''alltrips.parquet''
           \<in> set (filter (\<lambda>p. os_path_exists p fs')
                    (month_files None directory (os_listdir directory fs')))
       \<and> (\<exists>all_trips. read_parquet (directory @ ''alltrips.parquet'') fs' = Inr all_trips)"
proof -
  from assms(2) obtain all_trips where
    w: "fs' = to_parquet all_trips (output_path None directory) [(''birthyear'', ArrowString)] fs"
    by (rule merge_monthly_trips_Inr)
  have o: "output_path None directory = directory @ ''alltrips.parquet''"
    by (simp add: output_path_def truthy_def PARQUET_EXTENSION_def)
  have l: "''alltrips.parquet'' \<in> set (os_listdir directory fs')"
    unfolding w o set_os_listdir dirpath_slash [OF assms(1)] keys_to_parquet by simp
  have e: "endswith ''alltrips.parquet'' PARQUET_EXTENSION"
    by (simp add: endswith_def PARQUET_EXTENSION_def)
  have x: "os_path_exists (directory @ ''alltrips.parquet'') fs'"
    unfolding w o by (rule os_path_exists_to_parquet)
  have m: "directory @ ''alltrips.parquet'' \<in> set (month_files None directory (os_listdir directory fs'))"
    using l e by (auto simp: set_month_files_all truthy_def)
  have r: "read_parquet (directory @ ''alltrips.parquet'') fs' = Inr all_trips"
    unfolding w o by (simp add: read_parquet_def map_of_to_parquet)
  from o l m x r show ?thesis by auto
qed

lemma merge_all_mixed: "\<exists>fs'. merge_monthly_trips leave_missing None ''data/'' fs_mixed = Inr fs'"
  unfolding merge_monthly_trips_def listdir_mixed
  by (simp add: month_files_def truthy_def endswith_def PARQUET_EXTENSION_def
      fs_mixed_def os_path_exists_def read_parquet_def update_column_def dd_concat_def)

theorem second_merge_selects_first_output_witness:
  "endswith ''data/'' ''/''
   \<and> (\<exists>fs'. merge_monthly_trips leave_missing None ''data/'' fs_mixed = Inr fs'
        \<and> ''data/alltrips.parquet''
           \<in> set (filter (\<lambda>p. os_path_exists p fs')
                    (month_files None ''data/'' (os_listdir ''data/'' fs'))))"
proof -
  have h: "endswith ''data/'' ''/''" by (simp add: endswith_def)
  from merge_all_mixed obtain fs' where
    m: "merge_monthly_trips leave_missing None ''data/'' fs_mixed = Inr fs'" ..
  from second_merge_selects_first_output [OF h m]
  have "''data/'' @ ''alltrips.parquet''
           \<in> set (filter (\<lambda>p. os_path_exists p fs')
                    (month_files None ''data/'' (os_listdir ''data/'' fs')))" by blast
  then have "''data/alltrips.parquet''
           \<in> set (filter (\<lambda>p. os_path_exists p fs')
                    (month_files None ''data/'' (os_listdir ''data/'' fs')))" by simp
  with m have "\<exists>fs'. merge_monthly_trips leave_missing None ''data/'' fs_mixed = Inr fs'
        \<and> ''data/alltrips.parquet''
           \<in> set (filter (\<lambda>p. os_path_exists p fs')
                    (month_files None ''data/'' (os_listdir ''data/'' fs')))" by blast
  with h show ?thesis by (rule conjI)
qed

text \<open>
  Counterexample to C10 as stated: the directory is given as \<open>data\<close>, without the final
  \<open>/\<close>. The merger lists the directory \<open>data\<close>, reads \<open>dataa.parquet\<close> (the
  concatenation of \<open>data\<close> and the listed name \<open>a.parquet\<close>), and writes
  \<open>dataalltrips.parquet\<close>, which is not in the directory \<open>data\<close>: the second merge does not
  select it.
\<close>

theorem second_merge_counterexample:
  "\<exists>fs'. merge_monthly_trips leave_missing None ''data'' fs_no_slash = Inr fs'
     \<and> os_listdir ''data'' fs' = [''a.parquet'']
     \<and> month_files None ''data'' (os_listdir ''data'' fs') = [''dataa.parquet'']
     \<and> output_path None ''data'' = ''dataalltrips.parquet''"
proof -
  have l: "os_listdir ''data'' fs_no_slash = [''a.parquet'']"
    by (simp add: os_listdir_def fs_no_slash_def dirpath_def endswith_def)
  have mf: "month_files None ''data'' [''a.parquet''] = [''dataa.parquet'']"
    by (simp add: month_files_def truthy_def endswith_def PARQUET_EXTENSION_def)
  have o: "output_path None ''data'' = ''dataalltrips.parquet''"
    by (simp add: output_path_def truthy_def PARQUET_EXTENSION_def)
  obtain all_trips where
    m: "merge_monthly_trips leave_missing None ''data'' fs_no_slash
        = Inr (to_parquet all_trips ''dataalltrips.parquet'' [(''birthyear'', ArrowString)] fs_no_slash)"
    unfolding merge_monthly_trips_def l mf o
    by (simp add: fs_no_slash_def os_path_exists_def read_parquet_def update_column_def dd_concat_def)
  have l': "os_listdir ''data''
      (to_parquet all_trips ''dataalltrips.parquet'' [(''birthyear'', ArrowString)] fs_no_slash)
      = [''a.parquet'']"
    by (simp add: os_listdir_def fs_no_slash_def dirpath_def endswith_def to_parquet_def)
  show ?thesis
    by (rule exI [of _ "to_parquet all_trips ''dataalltrips.parquet'' [(''birthyear'', ArrowString)] fs_no_slash"])
       (simp only: m l' mf o simp_thms)
qed

section \<open>The converter\<close>

lemma convert_file_Inr:
  assumes "convert_file csv_file directory_to fs = Inr fs'"
  obtains csv_df out where
    "read_csv csv_file fs = Inr csv_df"
    "''birthyear'' \<in> set (columns (clean_columns csv_df))"
    "out = (clean_columns csv_df)
             \<lparr>rows := map (\<lambda>r. r(''birthyear'' := replace_marker (r ''birthyear'')))
                         (rows (clean_columns csv_df))\<rparr>"
    "fs' = to_parquet out (newfilepath csv_file directory_to) [] fs"
proof -
  from assms obtain csv_df out where
    r: "read_csv csv_file fs = Inr csv_df" and
    u: "update_column ''birthyear'' replace_marker (clean_columns csv_df) = Inr out" and
    w: "fs' = to_parquet out (newfilepath csv_file directory_to) [] fs"
    unfolding convert_file_def by (auto split: sum.splits)
  from r update_column_Inr [OF u] w show ?thesis by (rule that)
qed

lemma replace_marker_marker: "replace_marker (StrV marker) = StrV ''0''"
  by (simp add: replace_marker_def marker_def)

text \<open>
  C4. Whenever the conversion of a file completes, the columnar file written for it holds
  the cleaned rows of the input (labels normalised, rows with a missing cell dropped), in
  order; a row whose birth-year cell is the marker has the text \<open>0\<close> there, a text cell
  and not a number, and the other cells of a row are unchanged.
\<close>

theorem converted_birthyear_sentinel:
  assumes "convert_file csv_file directory_to fs = Inr fs'"
  shows "\<exists>csv_df out.
           read_csv csv_file fs = Inr csv_df
         \<and> map_of fs' (newfilepath csv_file directory_to) = Some (ParquetFile out [])
         \<and> length (rows out) = length (rows (clean_columns csv_df))
         \<and> (\<forall>i<length (rows out).
               (rows (clean_columns csv_df) ! i) ''birthyear'' = StrV marker
                 \<longrightarrow> (rows out ! i) ''birthyear'' = StrV ''0'')
         \<and> (\<forall>i<length (rows out). \<forall>c. c \<noteq> ''birthyear''
                 \<longrightarrow> (rows out ! i) c = (rows (clean_columns csv_df) ! i) c)"
proof -
  from assms obtain csv_df out where
    r: "read_csv csv_file fs = Inr csv_df" and
    o: "out = (clean_columns csv_df)
             \<lparr>rows := map (\<lambda>r. r(''birthyear'' := replace_marker (r ''birthyear'')))
                         (rows (clean_columns csv_df))\<rparr>" and
    w: "fs' = to_parquet out (newfilepath csv_file directory_to) [] fs"
    by (rule convert_file_Inr)
  have 1: "map_of fs' (newfilepath csv_file directory_to) = Some (ParquetFile out [])"
    unfolding w by (simp add: map_of_to_parquet)
  have 2: "length (rows out) = length (rows (clean_columns csv_df))"
    unfolding o by simp
  have 3: "(rows out ! i) ''birthyear'' = StrV ''0''"
    if "i < length (rows out)" "(rows (clean_columns csv_df) ! i) ''birthyear'' = StrV marker" for i
    using that unfolding o by (simp add: replace_marker_marker)
  have 4: "(rows out ! i) c = (rows (clean_columns csv_df) ! i) c"
    if "i < length (rows out)" "c \<noteq> ''birthyear''" for i c
    using that unfolding o by simp
  from r 1 2 3 4 show ?thesis by blast
qed

lemma clean_label_birth_year: "remove_spaces (lower ''Birth Year'') = ''birthyear''"
  by (simp add: lower_def lower_char_def remove_spaces_def)

lemma clean_label_tripduration: "remove_spaces (lower ''tripduration'') = ''tripduration''"
  by (simp add: lower_def lower_char_def remove_spaces_def)

lemma columns_clean_df_csv: "columns (clean_columns df_csv) = [''tripduration'', ''birthyear'']"
  by (simp add: clean_columns_def df_csv_def set_columns_def dropna_def
      clean_label_birth_year clean_label_tripduration)

lemma rows_clean_df_csv:
  "map (\<lambda>r. (r ''tripduration'', r ''birthyear'')) (rows (clean_columns df_csv))
     = [(IntV 320, StrV marker), (IntV 200, StrV ''1985'')]"
  by (simp add: clean_columns_def df_csv_def set_columns_def dropna_def
      clean_label_birth_year clean_label_tripduration mk_row_Cons mk_row_Nil)

lemma length_clean_df_csv: "length (rows (clean_columns df_csv)) = 2"
  using arg_cong [OF rows_clean_df_csv, of length] by simp

lemma first_row_clean_df_csv:
  "(rows (clean_columns df_csv) ! 0) ''tripduration'' = IntV 320"
  "(rows (clean_columns df_csv) ! 0) ''birthyear'' = StrV marker"
  using arg_cong [OF rows_clean_df_csv, of "\<lambda>l. l ! 0"] length_clean_df_csv by simp_all

lemma convert_file_csv: "\<exists>fs'. convert_file ''csv/2019-01.csv'' ''parquet/'' fs_csv = Inr fs'"
  by (simp add: convert_file_def read_csv_def fs_csv_def update_column_def columns_clean_df_csv)

lemma newfilepath_csv: "newfilepath ''csv/2019-01.csv'' ''parquet/'' = ''parquet/2019-01.parquet''"
  by (simp add: newfilepath_def split_last_def drop_last4_def)

theorem converted_birthyear_sentinel_witness:
  "\<exists>fs' out.
      convert_file ''csv/2019-01.csv'' ''parquet/'' fs_csv = Inr fs'
    \<and> map_of fs' ''parquet/2019-01.parquet'' = Some (ParquetFile out [])
    \<and> (rows (clean_columns df_csv) ! 0) ''birthyear'' = StrV marker
    \<and> length (rows out) = 2
    \<and> (rows out ! 0) ''birthyear'' = StrV ''0''
    \<and> (rows out ! 0) ''tripduration'' = IntV 320"
proof -
  from convert_file_csv obtain fs' where
    m: "convert_file ''csv/2019-01.csv'' ''parquet/'' fs_csv = Inr fs'" ..
  from converted_birthyear_sentinel [OF m] obtain csv_df out where
    r: "read_csv ''csv/2019-01.csv'' fs_csv = Inr csv_df" and
    o: "map_of fs' (newfilepath ''csv/2019-01.csv'' ''parquet/'') = Some (ParquetFile out [])" and
    n: "length (rows out) = length (rows (clean_columns csv_df))" and
    s: "\<forall>i<length (rows out).
               (rows (clean_columns csv_df) ! i) ''birthyear'' = StrV marker
                 \<longrightarrow> (rows out ! i) ''birthyear'' = StrV ''0''" and
    k: "\<forall>i<length (rows out). \<forall>c. c \<noteq> ''birthyear''
                 \<longrightarrow> (rows out ! i) c = (rows (clean_columns csv_df) ! i) c"
    by blast
  from r have csv_df: "csv_df = df_csv" by (simp add: read_csv_def fs_csv_def)
  have n': "length (rows out) = 2" using n unfolding csv_df length_clean_df_csv .
  have z: "0 < length (rows out)" unfolding n' by simp
  have s': "(rows out ! 0) ''birthyear'' = StrV ''0''"
    by (rule s [rule_format, OF z]) (simp only: csv_df first_row_clean_df_csv(2))
  have d: "''tripduration'' \<noteq> ''birthyear''" by simp
  have "(rows out ! 0) ''tripduration'' = (rows (clean_columns csv_df) ! 0) ''tripduration''"
    by (rule k [rule_format, OF z d])
  then have k': "(rows out ! 0) ''tripduration'' = IntV 320"
    unfolding csv_df first_row_clean_df_csv(1) .
  have o': "map_of fs' ''parquet/2019-01.parquet'' = Some (ParquetFile out [])"
    using o unfolding newfilepath_csv .
  show ?thesis
    by (rule exI [of _ fs'], rule exI [of _ out])
       (simp only: m o' first_row_clean_df_csv(2) n' s' k' simp_thms)
qed

section \<open>The files the converter writes\<close>

lemma split_last_in_directory:
  assumes "endswith d ''/''" and "CHR ''/'' \<notin> set f"
  shows "split_last (d @ f) = f"
proof -
  from assms(1) obtain stem where d: "d = stem @ ''/''"
    unfolding endswith_iff by blast
  have "rev (d @ f) = rev f @ CHR ''/'' # rev stem" unfolding d by simp
  moreover have "takeWhile (\<lambda>c. c \<noteq> CHR ''/'') (rev f @ CHR ''/'' # rev stem)
      = rev f @ takeWhile (\<lambda>c. c \<noteq> CHR ''/'') (CHR ''/'' # rev stem)"
    by (rule takeWhile_append2) (use assms(2) in auto)
  then have "takeWhile (\<lambda>c. c \<noteq> CHR ''/'') (rev f @ CHR ''/'' # rev stem) = rev f"
    by simp
  ultimately show ?thesis unfolding split_last_def by simp
qed

lemma drop_last4_extension: "length ext = 4 \<Longrightarrow> drop_last4 (stem @ ext) = stem"
  by (simp add: drop_last4_def)

lemma convert_files_Inr:
  assumes "convert_files csv_files directory_to fs = Inr fs'"
  shows "\<forall>p\<in>set csv_files. \<exists>df. map_of fs' (newfilepath p directory_to) = Some (ParquetFile df [])"
    and "\<forall>q. q \<notin> (\<lambda>p. newfilepath p directory_to) ` set csv_files \<longrightarrow> map_of fs' q = map_of fs q"
  using assms
proof (induction csv_files arbitrary: fs)
  case Nil
  { case 1 show ?case by simp }
  { case 2 then show ?case by simp }
next
  case (Cons p ps)
  { case 1
    then obtain fs1 where
      f: "convert_file p directory_to fs = Inr fs1" and
      r: "convert_files ps directory_to fs1 = Inr fs'"
      by (auto split: sum.splits)
    from f obtain out where w: "fs1 = to_parquet out (newfilepath p directory_to) [] fs"
      by (rule convert_file_Inr)
    have "\<exists>df. map_of fs' (newfilepath p directory_to) = Some (ParquetFile df [])"
    proof (cases "newfilepath p directory_to \<in> (\<lambda>p. newfilepath p directory_to) ` set ps")
      case True
      with Cons.IH(1) [OF r] show ?thesis by auto
    next
      case False
      with Cons.IH(2) [OF r]
      have "map_of fs' (newfilepath p directory_to) = map_of fs1 (newfilepath p directory_to)" by blast
      then show ?thesis unfolding w by (simp add: map_of_to_parquet)
    qed
    with Cons.IH(1) [OF r] show ?case by simp }
  { case 2
    then obtain fs1 where
      f: "convert_file p directory_to fs = Inr fs1" and
      r: "convert_files ps directory_to fs1 = Inr fs'"
      by (auto split: sum.splits)
    from f obtain out where w: "fs1 = to_parquet out (newfilepath p directory_to) [] fs"
      by (rule convert_file_Inr)
    show ?case
    proof (intro allI impI)
      fix q assume q: "q \<notin> (\<lambda>p. newfilepath p directory_to) ` set (p # ps)"
      then have "map_of fs' q = map_of fs1 q" using Cons.IH(2) [OF r] by simp
      also have "\<dots> = map_of fs q" using q unfolding w by (simp add: map_of_to_parquet)
      finally show "map_of fs' q = map_of fs q" .
    qed }
qed

text \<open>
  C8 (as amended). Let the source directory path end in \<open>/\<close> and the converter complete.
  Then for every file of the source directory, the path made of \<open>directory_to\<close>, the
  file's name without its last four characters, and \<open>.parquet\<close> holds a columnar file;
  when the destination path ends in \<open>/\<close> too, that file is in the destination directory,
  listed there under the name without its last four characters followed by \<open>.parquet\<close>.
  For a name \<open>stem + ext\<close> with an extension of four characters (such as \<open>.csv\<close>) the
  output is \<open>stem + ".parquet"\<close>: its base name is that of the input. No other path is
  written.
\<close>

theorem converter_writes_one_file_per_input:
  assumes "convert_to_parquet directory_from directory_to fs = Inr fs'"
    and "endswith directory_from ''/''"
  shows "(\<forall>f\<in>set (os_listdir directory_from fs).
            \<exists>df. map_of fs' (directory_to @ drop_last4 f @ ''.parquet'') = Some (ParquetFile df []))
       \<and> (\<forall>stem ext. stem @ ext \<in> set (os_listdir directory_from fs) \<and> length ext = 4
            \<longrightarrow> (\<exists>df. map_of fs' (directory_to @ stem @ ''.parquet'') = Some (ParquetFile df [])))
       \<and> (\<forall>q. q \<notin> (\<lambda>f. directory_to @ drop_last4 f @ ''.parquet'') ` set (os_listdir directory_from fs)
            \<longrightarrow> map_of fs' q = map_of fs q)
       \<and> (endswith directory_to ''/''
            \<longrightarrow> (\<forall>f\<in>set (os_listdir directory_from fs).
                   drop_last4 f @ ''.parquet'' \<in> set (os_listdir directory_to fs'))
              \<and> (\<forall>stem ext. stem @ ext \<in> set (os_listdir directory_from fs) \<and> length ext = 4
                   \<longrightarrow> stem @ ''.parquet'' \<in> set (os_listdir directory_to fs')
                     \<and> (\<exists>df. read_parquet (directory_to @ stem @ ''.parquet'') fs' = Inr df)))"
proof -
  let ?names = "os_listdir directory_from fs"
  let ?csv_files = "sort (map (\<lambda>f. directory_from @ f) ?names)"
  from assms(1) have c: "convert_files ?csv_files directory_to fs = Inr fs'"
    by (simp add: convert_to_parquet_def)
  have n: "newfilepath (directory_from @ f) directory_to = directory_to @ drop_last4 f @ ''.parquet''"
    if "f \<in> set ?names" for f
  proof -
    from that have "CHR ''/'' \<notin> set f" by (simp add: set_os_listdir)
    with assms(2) show ?thesis by (simp add: newfilepath_def split_last_in_directory)
  qed
  have 1: "\<exists>df. map_of fs' (directory_to @ drop_last4 f @ ''.parquet'') = Some (ParquetFile df [])"
    if "f \<in> set ?names" for f
  proof -
    from that have "directory_from @ f \<in> set ?csv_files" by simp
    with convert_files_Inr(1) [OF c]
    have "\<exists>df. map_of fs' (newfilepath (directory_from @ f) directory_to) = Some (ParquetFile df [])"
      by blast
    then show ?thesis unfolding n [OF that] .
  qed
  have 2: "\<exists>df. map_of fs' (directory_to @ stem @ ''.parquet'') = Some (ParquetFile df [])"
    if "stem @ ext \<in> set ?names" "length ext = 4" for stem ext
    using 1 [OF that(1)] unfolding drop_last4_extension [OF that(2)] .
  have i: "(\<lambda>p. newfilepath p directory_to) ` set ?csv_files
      = (\<lambda>f. directory_to @ drop_last4 f @ ''.parquet'') ` set ?names"
    using n by (auto simp: image_iff)
  have 3: "map_of fs' q = map_of fs q"
    if "q \<notin> (\<lambda>f. directory_to @ drop_last4 f @ ''.parquet'') ` set ?names" for q
    using convert_files_Inr(2) [OF c] that unfolding i by blast
  have 4: "drop_last4 f @ ''.parquet'' \<in> set (os_listdir directory_to fs')"
    if d: "endswith directory_to ''/''" and f: "f \<in> set ?names" for f
  proof -
    from f have "CHR ''/'' \<notin> set f" by (simp add: set_os_listdir)
    then have "CHR ''/'' \<notin> set (drop_last4 f)"
      unfolding drop_last4_def by (auto dest: in_set_takeD)
    moreover from 1 [OF f] have "directory_to @ drop_last4 f @ ''.parquet'' \<in> fst ` set fs'"
      by (auto dest: map_of_SomeD intro: rev_image_eqI)
    ultimately show ?thesis
      unfolding set_os_listdir dirpath_slash [OF d] by simp
  qed
  have 5: "stem @ ''.parquet'' \<in> set (os_listdir directory_to fs')
      \<and> (\<exists>df. read_parquet (directory_to @ stem @ ''.parquet'') fs' = Inr df)"
    if d: "endswith directory_to ''/''" and f: "stem @ ext \<in> set ?names" and e: "length ext = 4"
    for stem ext
  proof
    show "stem @ ''.parquet'' \<in> set (os_listdir directory_to fs')"
      using 4 [OF d f] unfolding drop_last4_extension [OF e] .
    from 2 [OF f e] show "\<exists>df. read_parquet (directory_to @ stem @ ''.parquet'') fs' = Inr df"
      by (auto simp: read_parquet_def)
  qed
  from 1 2 3 4 5 show ?thesis by blast
qed

lemma convert_file_succeeds:
  assumes "read_csv p fs = Inr df" and "''birthyear'' \<in> set (columns (clean_columns df))"
  shows "\<exists>out. convert_file p directory_to fs = Inr (to_parquet out (newfilepath p directory_to) [] fs)"
  using assms by (auto simp: convert_file_def update_column_def)

lemma read_csv_to_parquet: "p \<noteq> q \<Longrightarrow> read_csv p (to_parquet out q s fs) = read_csv p fs"
  by (simp add: read_csv_def map_of_to_parquet)

lemma listdir_csv: "os_listdir ''csv/'' fs_csv = [''2019-01.csv'']"
  by (simp add: os_listdir_def fs_csv_def dirpath_def endswith_def)

lemma listdir_two_csv: "os_listdir ''csv/'' fs_two_csv = [''2019-02.csv'', ''2019-01.csv'']"
  by (simp add: os_listdir_def fs_two_csv_def dirpath_def endswith_def)

lemma newfilepath_csv_02: "newfilepath ''csv/2019-02.csv'' ''parquet/'' = ''parquet/2019-02.parquet''"
  by (simp add: newfilepath_def split_last_def drop_last4_def)

lemma convert_to_parquet_two_csv:
  "\<exists>fs'. convert_to_parquet ''csv/'' ''parquet/'' fs_two_csv = Inr fs'"
proof -
  have r1: "read_csv ''csv/2019-01.csv'' fs_two_csv = Inr df_csv"
    by (simp add: read_csv_def fs_two_csv_def)
  have r2: "read_csv ''csv/2019-02.csv'' fs_two_csv = Inr df_csv"
    by (simp add: read_csv_def fs_two_csv_def)
  have b: "''birthyear'' \<in> set (columns (clean_columns df_csv))"
    by (simp add: columns_clean_df_csv)
  from convert_file_succeeds [OF r1 b, of "''parquet/''"] obtain out1 where
    c1: "convert_file ''csv/2019-01.csv'' ''parquet/'' fs_two_csv
           = Inr (to_parquet out1 ''parquet/2019-01.parquet'' [] fs_two_csv)"
    unfolding newfilepath_csv by blast
  have "read_csv ''csv/2019-02.csv'' (to_parquet out1 ''parquet/2019-01.parquet'' [] fs_two_csv)
      = Inr df_csv"
    using r2 by (simp add: read_csv_to_parquet)
  from convert_file_succeeds [OF this b, of "''parquet/''"] obtain out2 where
    c2: "convert_file ''csv/2019-02.csv'' ''parquet/''
           (to_parquet out1 ''parquet/2019-01.parquet'' [] fs_two_csv)
           = Inr (to_parquet out2 ''parquet/2019-02.parquet'' []
                   (to_parquet out1 ''parquet/2019-01.parquet'' [] fs_two_csv))"
    unfolding newfilepath_csv_02 by blast
  have "convert_to_parquet ''csv/'' ''parquet/'' fs_two_csv
      = Inr (to_parquet out2 ''parquet/2019-02.parquet'' []
              (to_parquet out1 ''parquet/2019-01.parquet'' [] fs_two_csv))"
    unfolding convert_to_parquet_def listdir_two_csv by (simp add: c1 c2)
  then show ?thesis ..
qed

theorem converter_writes_one_file_per_input_witness:
  "endswith ''csv/'' ''/'' \<and> endswith ''parquet/'' ''/''
   \<and> os_listdir ''csv/'' fs_two_csv = [''2019-02'' @ ''.csv'', ''2019-01'' @ ''.csv'']
   \<and> (\<exists>fs'. convert_to_parquet ''csv/'' ''parquet/'' fs_two_csv = Inr fs'
        \<and> ''2019-01.parquet'' \<in> set (os_listdir ''parquet/'' fs')
        \<and> ''2019-02.parquet'' \<in> set (os_listdir ''parquet/'' fs')
        \<and> map_of fs' ''csv/2019-01.csv'' = map_of fs_two_csv ''csv/2019-01.csv'')"
proof -
  have h: "endswith ''csv/'' ''/''" by (simp add: endswith_def)
  have d: "endswith ''parquet/'' ''/''" by (simp add: endswith_def)
  have l: "os_listdir ''csv/'' fs_two_csv = [''2019-02'' @ ''.csv'', ''2019-01'' @ ''.csv'']"
    unfolding listdir_two_csv by simp
  have l1: "''2019-01'' @ ''.csv'' \<in> set (os_listdir ''csv/'' fs_two_csv)" unfolding l by simp
  have l2: "''2019-02'' @ ''.csv'' \<in> set (os_listdir ''csv/'' fs_two_csv)" unfolding l by simp
  have e: "length ''.csv'' = 4" by simp
  from convert_to_parquet_two_csv obtain fs' where
    m: "convert_to_parquet ''csv/'' ''parquet/'' fs_two_csv = Inr fs'" ..
  note t = converter_writes_one_file_per_input [OF m h]
  note u = t [THEN conjunct2, THEN conjunct2, THEN conjunct2, rule_format, OF d, THEN conjunct2,
      rule_format]
  from u [OF conjI [OF l1 e]] have "''2019-01'' @ ''.parquet'' \<in> set (os_listdir ''parquet/'' fs')" ..
  then have o1: "''2019-01.parquet'' \<in> set (os_listdir ''parquet/'' fs')" by simp
  from u [OF conjI [OF l2 e]] have "''2019-02'' @ ''.parquet'' \<in> set (os_listdir ''parquet/'' fs')" ..
  then have o2: "''2019-02.parquet'' \<in> set (os_listdir ''parquet/'' fs')" by simp
  have "''csv/2019-01.csv''
      \<notin> (\<lambda>f. ''parquet/'' @ drop_last4 f @ ''.parquet'') ` set (os_listdir ''csv/'' fs_two_csv)"
    unfolding listdir_two_csv by simp
  from t [THEN conjunct2, THEN conjunct2, THEN conjunct1, rule_format, OF this]
  have k: "map_of fs' ''csv/2019-01.csv'' = map_of fs_two_csv ''csv/2019-01.csv''" .
  have "\<exists>fs'. convert_to_parquet ''csv/'' ''parquet/'' fs_two_csv = Inr fs'
        \<and> ''2019-01.parquet'' \<in> set (os_listdir ''parquet/'' fs')
        \<and> ''2019-02.parquet'' \<in> set (os_listdir ''parquet/'' fs')
        \<and> map_of fs' ''csv/2019-01.csv'' = map_of fs_two_csv ''csv/2019-01.csv''"
    by (rule exI [of _ fs']) (simp only: m o1 o2 k simp_thms)
  with h d l show ?thesis by (intro conjI)
qed

text \<open>
  Counterexamples to C8 as stated. A file of the source directory named \<open>2019-01\<close>,
  without an extension, is written as \<open>201.parquet\<close>: no file of the destination has the
  input's base name. With the destination given as \<open>parquet\<close>, without the final \<open>/\<close>,
  the file \<open>2019-01.csv\<close> is written to \<open>parquet2019-01.parquet\<close>, beside the destination
  directory, which stays empty. With the source given as \<open>csv\<close>, without the final \<open>/\<close>,
  the converter looks for \<open>csv2019-01.csv\<close>, raises and writes nothing.
\<close>

theorem converter_base_name_counterexample:
  "os_listdir ''csv/'' fs_plain = [''2019-01'']
   \<and> (\<exists>fs'. convert_to_parquet ''csv/'' ''parquet/'' fs_plain = Inr fs'
        \<and> map fst fs' = [''csv/2019-01'', ''parquet/201.parquet''])
   \<and> os_listdir ''csv/'' fs_csv = [''2019-01.csv'']
   \<and> (\<exists>fs'. convert_to_parquet ''csv/'' ''parquet'' fs_csv = Inr fs'
        \<and> map fst fs' = [''csv/2019-01.csv'', ''parquet2019-01.parquet'']
        \<and> os_listdir ''parquet'' fs' = [])
   \<and> os_listdir ''csv'' fs_csv = [''2019-01.csv'']
   \<and> convert_to_parquet ''csv'' ''parquet/'' fs_csv = Inl (FileNotFoundError ''csv2019-01.csv'')"
proof -
  have l: "os_listdir ''csv/'' fs_plain = [''2019-01'']"
    by (simp add: os_listdir_def fs_plain_def dirpath_def endswith_def)
  have "\<exists>fs'. convert_file ''csv/2019-01'' ''parquet/'' fs_plain = Inr fs'"
    by (simp add: convert_file_def read_csv_def fs_plain_def update_column_def columns_clean_df_csv)
  then obtain fs' where f: "convert_file ''csv/2019-01'' ''parquet/'' fs_plain = Inr fs'" ..
  then obtain out where "fs' = to_parquet out (newfilepath ''csv/2019-01'' ''parquet/'') [] fs_plain"
    by (rule convert_file_Inr)
  then have k: "map fst fs' = [''csv/2019-01'', ''parquet/201.parquet'']"
    by (simp add: to_parquet_def fs_plain_def newfilepath_def split_last_def drop_last4_def)
  from f have m: "convert_to_parquet ''csv/'' ''parquet/'' fs_plain = Inr fs'"
    unfolding convert_to_parquet_def l by simp
  have a: "\<exists>fs'. convert_to_parquet ''csv/'' ''parquet/'' fs_plain = Inr fs'
        \<and> map fst fs' = [''csv/2019-01'', ''parquet/201.parquet'']"
    by (rule exI [of _ fs']) (simp only: m k simp_thms)
  have "\<exists>fs2. convert_file ''csv/2019-01.csv'' ''parquet'' fs_csv = Inr fs2"
    by (simp add: convert_file_def read_csv_def fs_csv_def update_column_def columns_clean_df_csv)
  then obtain fs2 where f2: "convert_file ''csv/2019-01.csv'' ''parquet'' fs_csv = Inr fs2" ..
  then obtain out2 where
    w2: "fs2 = to_parquet out2 (newfilepath ''csv/2019-01.csv'' ''parquet'') [] fs_csv"
    by (rule convert_file_Inr)
  have n2: "newfilepath ''csv/2019-01.csv'' ''parquet'' = ''parquet2019-01.parquet''"
    by (simp add: newfilepath_def split_last_def drop_last4_def)
  have k2: "map fst fs2 = [''csv/2019-01.csv'', ''parquet2019-01.parquet'']"
    unfolding w2 n2 by (simp add: to_parquet_def fs_csv_def)
  have e2: "os_listdir ''parquet'' fs2 = []"
    unfolding os_listdir_def k2 by (simp add: dirpath_def endswith_def)
  from f2 have m2: "convert_to_parquet ''csv/'' ''parquet'' fs_csv = Inr fs2"
    unfolding convert_to_parquet_def listdir_csv by simp
  have b: "\<exists>fs'. convert_to_parquet ''csv/'' ''parquet'' fs_csv = Inr fs'
        \<and> map fst fs' = [''csv/2019-01.csv'', ''parquet2019-01.parquet'']
        \<and> os_listdir ''parquet'' fs' = []"
    by (rule exI [of _ fs2]) (simp only: m2 k2 e2 simp_thms)
  have l3: "os_listdir ''csv'' fs_csv = [''2019-01.csv'']"
    by (simp add: os_listdir_def fs_csv_def dirpath_def endswith_def)
  have c: "convert_to_parquet ''csv'' ''parquet/'' fs_csv = Inl (FileNotFoundError ''csv2019-01.csv'')"
    unfolding convert_to_parquet_def l3
    by (simp add: convert_file_def read_csv_def fs_csv_def)
  from l a listdir_csv b l3 c show ?thesis by (intro conjI)
qed
end
